theory Spec2Isabelle
  imports Main
begin

section \<open>The auto reboot tool (\<^verbatim>\<open>auto_reboot_tool.py\<close>)\<close>

text \<open>
  A shallow embedding of the class \<^verbatim>\<open>AutoRebootTool\<close>: the schedule calculator
  (\<^verbatim>\<open>get_next_reboot_time\<close>), the announcement planner
  (\<^verbatim>\<open>schedule_announcements\<close>), the process controller (\<^verbatim>\<open>start_server\<close>,
  \<^verbatim>\<open>send_command\<close>, \<^verbatim>\<open>wait_for_server_exit\<close>, \<^verbatim>\<open>stop\<close>) and the
  supervisor loop (\<^verbatim>\<open>reboot_cycle\<close>).
\<close>

subsection \<open>Exceptions\<close>

text \<open>
  The exceptions the modelled code can meet. \<open>Unsupported\<close> is not a Python exception: it
  marks a format string that uses a feature of \<^verbatim>\<open>str.format\<close> this development does
  not embed (conversions, format specifications, attribute and index access, nested
  fields); nothing is concluded from it.
\<close>

datatype error =
    KeyError | ValueError | IndexError | AttributeError
  | BrokenPipeError | TimeoutExpired | OSError
  | Unsupported

subsection \<open>Instants and durations\<close>

text \<open>
  A naive \<^verbatim>\<open>datetime\<close> is an instant on the local time line, counted in microseconds;
  day \<open>d\<close> begins at \<open>d * us_per_day\<close>. Python orders datetimes by
  (year, month, day, hour, minute, second, microsecond), which is the order of this
  count. A \<^verbatim>\<open>timedelta\<close> is a number of microseconds. The time line is unbounded: the
  limits of Python's calendar (years 1 to 9999) are outside the model.
\<close>

type_synonym datetime = int
type_synonym timedelta = int

definition us_per_second :: int where
  "us_per_second = 1000000"

definition us_per_day :: int where
  "us_per_day = 86400 * us_per_second"

definition timedelta_days :: "int \<Rightarrow> timedelta" where
  "timedelta_days n = n * us_per_day"

definition timedelta_seconds :: "int \<Rightarrow> timedelta" where
  "timedelta_seconds n = n * us_per_second"

definition timedelta_minutes :: "int \<Rightarrow> timedelta" where
  "timedelta_minutes n = n * 60 * us_per_second"

text \<open>The instant on day \<open>d\<close> at \<open>h:m:s\<close> and \<open>us\<close> microseconds.\<close>

definition datetime_at :: "int \<Rightarrow> int \<Rightarrow> int \<Rightarrow> int \<Rightarrow> int \<Rightarrow> datetime" where
  "datetime_at d h m s us = d * us_per_day + ((h * 60 + m) * 60 + s) * us_per_second + us"

definition date_of :: "datetime \<Rightarrow> int" where
  "date_of t = t div us_per_day"

text \<open>
  \<^verbatim>\<open>now.replace(hour=hour, minute=minute, second=0, microsecond=0)\<close>: the date is kept;
  an hour outside 0..23 or a minute outside 0..59 raises \<^verbatim>\<open>ValueError\<close>.
\<close>

definition datetime_replace :: "datetime \<Rightarrow> int \<Rightarrow> int \<Rightarrow> error + datetime" where
  "datetime_replace t h m =
     (if 0 \<le> h \<and> h < 24 \<and> 0 \<le> m \<and> m < 60
      then Inr (datetime_at (date_of t) h m 0 0)
      else Inl ValueError)"

subsection \<open>Configuration\<close>

text \<open>
  An entry of \<^verbatim>\<open>config["reboot_schedule"]\<close>. The key \<^verbatim>\<open>enabled\<close> may be absent
  (\<open>None\<close>): the code reads it with \<^verbatim>\<open>schedule.get("enabled", True)\<close>.
\<close>

record schedule_entry =
  hour :: int
  minute :: int
  enabled :: "bool option"

subsection \<open>Schedule calculator: \<^verbatim>\<open>get_next_reboot_time\<close>\<close>

text \<open>\<^verbatim>\<open>schedule.get("enabled", True)\<close>\<close>

definition get_enabled :: "schedule_entry \<Rightarrow> bool" where
  "get_enabled s = (case enabled s of None \<Rightarrow> True | Some b \<Rightarrow> b)"

text \<open>
  The loop of lines 213 to 225: the list \<^verbatim>\<open>reboot_times\<close> it builds, or the exception
  of the first entry that raises.
\<close>

fun reboot_times :: "datetime \<Rightarrow> schedule_entry list \<Rightarrow> error + datetime list" where
  "reboot_times now [] = Inr []"
| "reboot_times now (s # rest) =
     (if \<not> get_enabled s then reboot_times now rest
      else
        (case datetime_replace now (hour s) (minute s) of
           Inl e \<Rightarrow> Inl e
         | Inr reboot_time \<Rightarrow>
             (case reboot_times now rest of
                Inl e \<Rightarrow> Inl e
              | Inr ts \<Rightarrow>
                  Inr ((if reboot_time \<le> now then reboot_time + timedelta_days 1
                        else reboot_time) # ts))))"

text \<open>Python's \<^verbatim>\<open>min\<close> of a list: the first least element; \<^verbatim>\<open>ValueError\<close> on \<open>[]\<close>.\<close>

fun py_min :: "int list \<Rightarrow> error + int" where
  "py_min [] = Inl ValueError"
| "py_min (x # xs) = Inr (fold (\<lambda>y m. if y < m then y else m) xs x)"

text \<open>
  \<^verbatim>\<open>get_next_reboot_time\<close>, with the clock reading \<^verbatim>\<open>datetime.now()\<close> and
  \<^verbatim>\<open>self.config["reboot_schedule"]\<close> as arguments.
\<close>

definition get_next_reboot_time :: "datetime \<Rightarrow> schedule_entry list \<Rightarrow> error + datetime option" where
  "get_next_reboot_time now schedule =
     (case reboot_times now schedule of
        Inl e \<Rightarrow> Inl e
      | Inr ts \<Rightarrow>
          if ts = [] then Inr None
          else (case py_min ts of Inl e \<Rightarrow> Inl e | Inr t \<Rightarrow> Inr (Some t)))"

text \<open>
  The schedule as the specification reads it. An entry is well formed when its hour is
  in 0..23 and its minute in 0..59; only the entries the loop does not skip are read.
\<close>

definition valid_entry :: "schedule_entry \<Rightarrow> bool" where
  "valid_entry s = (0 \<le> hour s \<and> hour s < 24 \<and> 0 \<le> minute s \<and> minute s < 60)"

definition valid_schedule :: "schedule_entry list \<Rightarrow> bool" where
  "valid_schedule schedule = list_all valid_entry (filter get_enabled schedule)"

text \<open>
  The specification's words for the schedule calculator: for each enabled entry, today's
  date at (hour, minute, second 0), advanced by one day when that instant is not after
  \<open>now\<close>; the least of these, or none when no entry is enabled.
\<close>

definition candidate :: "datetime \<Rightarrow> schedule_entry \<Rightarrow> datetime" where
  "candidate now s =
     (let c = datetime_at (date_of now) (hour s) (minute s) 0 0
      in if c \<le> now then c + us_per_day else c)"

definition next_reboot_spec :: "datetime \<Rightarrow> schedule_entry list \<Rightarrow> datetime option" where
  "next_reboot_spec now schedule =
     (let en = filter (\<lambda>s. enabled s \<noteq> Some False) schedule
      in if en = [] then None else Some (Min (set (map (candidate now) en))))"

subsection \<open>Strings\<close>

text \<open>\<^verbatim>\<open>text.startswith(prefix)\<close>\<close>

fun starts_with :: "string \<Rightarrow> string \<Rightarrow> bool" where
  "starts_with [] text = True"
| "starts_with (p # ps) [] = False"
| "starts_with (p # ps) (c # cs) = (p = c \<and> starts_with ps cs)"

text \<open>\<^verbatim>\<open>needle in text\<close> for two strings\<close>

fun str_contains :: "string \<Rightarrow> string \<Rightarrow> bool" where
  "str_contains needle [] = (needle = [])"
| "str_contains needle (c # cs) = (starts_with needle (c # cs) \<or> str_contains needle cs)"

text \<open>\<^verbatim>\<open>str(n)\<close> for an integer: its decimal digits, with a minus sign when negative.\<close>

fun string_of_nat :: "nat \<Rightarrow> string" where
  "string_of_nat n =
     (if n < 10 then [''0123456789'' ! n]
      else string_of_nat (n div 10) @ [''0123456789'' ! (n mod 10)])"

definition str_int :: "int \<Rightarrow> string" where
  "str_int i = (if i < 0 then CHR ''-'' # string_of_nat (nat (- i)) else string_of_nat (nat i))"

text \<open>
  \<^verbatim>\<open>template.format(kw=value)\<close> with one keyword argument and no positional ones,
  read left to right as CPython's parser does:
  \<^item> \<^verbatim>\<open>{{\<close> and \<^verbatim>\<open>}}\<close> give one brace; a brace alone raises \<^verbatim>\<open>ValueError\<close>, as
    does a field that is not closed;
  \<^item> a field whose name is \<open>kw\<close> gives the value; an empty or numeric name raises
    \<^verbatim>\<open>IndexError\<close> (there is no positional argument), any other name \<^verbatim>\<open>KeyError\<close>;
  \<^item> a field holding one of \<^verbatim>\<open>{ ! : . [\<close>, or a numeric name of more than nine digits,
    is outside the embedded fragment (\<open>Unsupported\<close>).
  The first problem met decides the exception.
\<close>

datatype fmt_state = Literal | Opened | Field string | Closed

definition is_digit :: "char \<Rightarrow> bool" where
  "is_digit c = (c \<in> set ''0123456789'')"

definition field_special :: "char \<Rightarrow> bool" where
  "field_special c = (c \<in> set ''{!:.['')"

definition get_field :: "string \<Rightarrow> string \<Rightarrow> string \<Rightarrow> error + string" where
  "get_field kw val name =
     (if list_all is_digit name
      then (if length name \<le> 9 then Inl IndexError else Inl Unsupported)
      else if name = kw then Inr val
      else Inl KeyError)"

definition emit :: "string \<Rightarrow> error + string \<Rightarrow> error + string" where
  "emit s r = (case r of Inl e \<Rightarrow> Inl e | Inr t \<Rightarrow> Inr (s @ t))"

fun format_scan :: "string \<Rightarrow> string \<Rightarrow> fmt_state \<Rightarrow> string \<Rightarrow> error + string" where
  "format_scan kw val Literal [] = Inr []"
| "format_scan kw val Opened [] = Inl ValueError"
| "format_scan kw val (Field name) [] = Inl ValueError"
| "format_scan kw val Closed [] = Inl ValueError"
| "format_scan kw val Literal (c # cs) =
     (if c = CHR ''{'' then format_scan kw val Opened cs
      else if c = CHR ''}'' then format_scan kw val Closed cs
      else emit [c] (format_scan kw val Literal cs))"
| "format_scan kw val Opened (c # cs) =
     (if c = CHR ''{'' then emit ''{'' (format_scan kw val Literal cs)
      else if c = CHR ''}''
      then (case get_field kw val [] of
              Inl e \<Rightarrow> Inl e
            | Inr s \<Rightarrow> emit s (format_scan kw val Literal cs))
      else if field_special c then Inl Unsupported
      else format_scan kw val (Field [c]) cs)"
| "format_scan kw val (Field name) (c # cs) =
     (if c = CHR ''}''
      then (case get_field kw val name of
              Inl e \<Rightarrow> Inl e
            | Inr s \<Rightarrow> emit s (format_scan kw val Literal cs))
      else if field_special c then Inl Unsupported
      else format_scan kw val (Field (name @ [c])) cs)"
| "format_scan kw val Closed (c # cs) =
     (if c = CHR ''}'' then emit ''}'' (format_scan kw val Literal cs)
      else Inl ValueError)"

definition py_format :: "string \<Rightarrow> string \<Rightarrow> int \<Rightarrow> error + string" where
  "py_format template kw v = format_scan kw (str_int v) Literal template"

subsection \<open>Logging\<close>

text \<open>
  A log record: its level, the text of the logged f-string as the source writes it, and
  the values of its fields in order.
\<close>

datatype level = DEBUG | INFO | WARNING | ERROR

datatype log_arg = Str string | Num int | Time datetime | Duration timedelta | Exc error

type_synonym log_record = "level \<times> string \<times> log_arg list"

subsection \<open>Announcement planner: \<^verbatim>\<open>schedule_announcements\<close>\<close>

text \<open>
  An entry of \<^verbatim>\<open>config["announcement_intervals"]\<close>; either offset key may be absent.
\<close>

record interval =
  seconds_before :: "int option"
  minutes_before :: "int option"
  message :: string

text \<open>The sort key \<^verbatim>\<open>get_seconds_before\<close> (lines 237 to 242).\<close>

definition get_seconds_before :: "interval \<Rightarrow> int" where
  "get_seconds_before i =
     (case seconds_before i of
        Some s \<Rightarrow> s
      | None \<Rightarrow> (case minutes_before i of Some m \<Rightarrow> m * 60 | None \<Rightarrow> 0))"

text \<open>
  Lines 251 to 269 for one interval: the announcement time and the rendered message,
  \<open>None\<close> when the interval is skipped (\<^verbatim>\<open>continue\<close>), or the exception raised.
\<close>

definition plan_interval :: "datetime \<Rightarrow> interval \<Rightarrow> error + (datetime \<times> string) option" where
  "plan_interval reboot_time i =
     (case seconds_before i of
        Some seconds \<Rightarrow>
          (let announcement_time = reboot_time - timedelta_seconds seconds
           in case (if str_contains ''{seconds}'' (message i)
                    then py_format (message i) ''seconds'' seconds
                    else Inr (message i)) of
                Inl e \<Rightarrow> Inl e
              | Inr msg \<Rightarrow> Inr (Some (announcement_time, msg)))
      | None \<Rightarrow>
          (case minutes_before i of
             Some minutes \<Rightarrow>
               (let announcement_time = reboot_time - timedelta_minutes minutes
                in case (if str_contains ''{minutes}'' (message i)
                         then py_format (message i) ''minutes'' minutes
                         else Inr (message i)) of
                     Inl e \<Rightarrow> Inl e
                   | Inr msg \<Rightarrow> Inr (Some (announcement_time, msg)))
           | None \<Rightarrow> Inr None))"

text \<open>
  \<^verbatim>\<open>threading.Timer(wait_seconds, self.send_command, args=[command]).start()\<close>: the
  delay, here in microseconds, and the command the timer will send. The command is
  \<^verbatim>\<open>f'announcement "{message}"'\<close>; \<open>CHR 0x22\<close> is the double quote.
\<close>

record timer =
  wait :: timedelta
  command :: string

text \<open>
  What a run of the planner leaves behind: the timers it started and the records it
  logged, both in order, and the exception that ended it, if any. Timers started before
  an exception stay armed.
\<close>

record plan =
  timers :: "timer list"
  logged :: "log_record list"
  raised :: "error option"

text \<open>The loop of lines 250 to 277 over the sorted intervals.\<close>

fun announce :: "datetime \<Rightarrow> datetime \<Rightarrow> interval list \<Rightarrow> plan" where
  "announce now reboot_time [] = \<lparr>timers = [], logged = [], raised = None\<rparr>"
| "announce now reboot_time (i # rest) =
     (case plan_interval reboot_time i of
        Inl e \<Rightarrow> \<lparr>timers = [], logged = [], raised = Some e\<rparr>
      | Inr None \<Rightarrow> announce now reboot_time rest
      | Inr (Some (announcement_time, msg)) \<Rightarrow>
          if announcement_time > now
          then (let r = announce now reboot_time rest
                in r\<lparr>timers :=
                       \<lparr>wait = announcement_time - now,
                        command = ''announcement '' @ [CHR 0x22] @ msg @ [CHR 0x22]\<rparr>
                       # timers r,
                     logged :=
                       (INFO, ''Scheduled announcement for {announcement_time}: {message}'',
                        [Time announcement_time, Str msg]) # logged r\<rparr>)
          else announce now reboot_time rest)"

text \<open>
  \<^verbatim>\<open>schedule_announcements(reboot_time)\<close>, with the clock reading and
  \<^verbatim>\<open>self.config["announcement_intervals"]\<close> as arguments. \<^verbatim>\<open>sorted\<close> with
  \<^verbatim>\<open>reverse=True\<close> is stable: intervals with equal keys keep their order.
\<close>

definition schedule_announcements :: "datetime \<Rightarrow> interval list \<Rightarrow> datetime \<Rightarrow> plan" where
  "schedule_announcements now intervals reboot_time =
     announce now reboot_time (sort_key (\<lambda>i. - get_seconds_before i) intervals)"



text \<open>
  An interval that is already missed: its message renders and its announcement time is
  not after \<open>now\<close>.
\<close>

definition missed :: "datetime \<Rightarrow> datetime \<Rightarrow> interval \<Rightarrow> bool" where
  "missed now reboot_time i =
     (case plan_interval reboot_time i of
        Inr (Some (announcement_time, msg)) \<Rightarrow> announcement_time \<le> now
      | _ \<Rightarrow> False)"

subsection \<open>The child process and its handle\<close>

text \<open>
  The operating system and the child are outside the source. The model gives every
  child a fixed disposition: whether it exits by itself within the start grace period
  (and with which return code), whether it exits when it reads the line \<^verbatim>\<open>exit\<close>, and
  whether it exits on a terminate request. A kill always ends it. A child is launched
  with a pid and a state of its input pipe.
\<close>

datatype pipe = PipeOpen | PipeClosed | PipeBroken

record child =
  child_pid :: nat
  child_pipe :: pipe
  exits_at_start :: "int option"
  heeds_exit :: bool
  heeds_terminate :: bool

text \<open>
  The \<^verbatim>\<open>subprocess.Popen\<close> object: \<open>stdin\<close> is the pipe (\<open>None\<close> when there is none),
  \<open>returncode\<close> is \<open>None\<close> until a \<^verbatim>\<open>poll\<close> or \<^verbatim>\<open>wait\<close> has seen the child's exit.
  \<open>received\<close> holds what was written to the pipe; \<open>terminated\<close> and \<open>killed\<close> record
  the signals sent.
\<close>

record popen =
  pid :: nat
  stdin :: "pipe option"
  returncode :: "int option"
  behaviour :: child
  received :: "string list"
  terminated :: bool
  killed :: bool

definition newline :: string where
  "newline = [CHR 0x0A]"

definition new_popen :: "child \<Rightarrow> popen" where
  "new_popen c =
     \<lparr>pid = child_pid c, stdin = Some (child_pipe c), returncode = None, behaviour = c,
      received = [], terminated = False, killed = False\<rparr>"

text \<open>The exit status of the child as the operating system has it (POSIX return codes).\<close>

definition exit_status :: "popen \<Rightarrow> int option" where
  "exit_status p =
     (case exits_at_start (behaviour p) of
        Some code \<Rightarrow> Some code
      | None \<Rightarrow>
          if killed p then Some (- 9)
          else if terminated p \<and> heeds_terminate (behaviour p) then Some (- 15)
          else if heeds_exit (behaviour p) \<and> (''exit'' @ newline) \<in> set (received p) then Some 0
          else None)"

text \<open>\<^verbatim>\<open>Popen.poll()\<close>: sets and returns \<open>returncode\<close>.\<close>

definition poll :: "popen \<Rightarrow> popen" where
  "poll p = (case returncode p of Some code \<Rightarrow> p | None \<Rightarrow> p\<lparr>returncode := exit_status p\<rparr>)"

text \<open>
  \<^verbatim>\<open>Popen.wait(timeout)\<close>: returns once the child has exited, raises
  \<^verbatim>\<open>TimeoutExpired\<close> when it has not within the timeout.
\<close>

definition popen_wait :: "popen \<Rightarrow> error + popen" where
  "popen_wait p = (if returncode (poll p) \<noteq> None then Inr (poll p) else Inl TimeoutExpired)"

text \<open>
  Writing a line to the pipe and flushing: a closed file raises \<^verbatim>\<open>ValueError\<close>, a
  broken pipe \<^verbatim>\<open>BrokenPipeError\<close>.
\<close>

definition pipe_write :: "pipe \<Rightarrow> error + unit" where
  "pipe_write q =
     (case q of PipeOpen \<Rightarrow> Inr () | PipeClosed \<Rightarrow> Inl ValueError | PipeBroken \<Rightarrow> Inl BrokenPipeError)"

subsection \<open>The tool's state and its surroundings\<close>

text \<open>\<^verbatim>\<open>self.config\<close>, with the fields \<^verbatim>\<open>load_config\<close> requires and \<^verbatim>\<open>server_args\<close>.\<close>

record config =
  server_path :: string
  server_args :: "string list"
  reboot_schedule :: "schedule_entry list"
  announcement_intervals :: "interval list"
  restart_delay_seconds :: int

text \<open>
  What the file system and the operating system answer: whether the configured path,
  its bare file name, and the path beside the configuration file exist; the resolved
  path, its directory and the directory of the child's logs; the platform; the outcome of the \<open>n\<close>-th call of
  \<^verbatim>\<open>subprocess.Popen\<close> (an exception or a child); and what the scan of the child's own
  log files (lines 140 to 164, best-effort diagnostics that only read files and log)
  produces: log records, or an exception raised outside its inner \<^verbatim>\<open>try\<close>.
\<close>

record env =
  path_exists :: bool
  name_exists :: bool
  beside_config_exists :: bool
  resolved_path :: string
  working_dir :: string
  log_dir :: string
  win32 :: bool
  spawn :: "nat \<Rightarrow> error + child"
  diagnostics :: "error + log_record list"

text \<open>What the tool does to the world outside, in order.\<close>

datatype event =
    Popen_argv "string list" string
  | Popen_shell string string
  | Write string
  | Wait int
  | Terminate
  | Kill
  | Sleep timedelta
  | TimerStart timedelta string
  | ThreadStart
  | Join int

text \<open>
  The fields of \<^verbatim>\<open>AutoRebootTool\<close> together with the clock, the log, the trace of
  events and the number of \<^verbatim>\<open>Popen\<close> calls made. Time passes in \<^verbatim>\<open>time.sleep\<close> and
  in a wait that times out, and nowhere else. The control thread (\<^verbatim>\<open>reboot_cycle\<close>)
  and the caller of \<^verbatim>\<open>stop\<close> are each modelled as a sequential run over this state;
  the timers the planner starts are recorded as started, their later firing (a call of
  \<^verbatim>\<open>send_command\<close> on the state of that moment) is not run.
\<close>

record world =
  config :: config
  env :: env
  server_process :: "popen option"
  running :: bool
  reboot_thread :: bool
  clock :: datetime
  log :: "log_record list"
  events :: "event list"
  launches :: nat

definition log_msg :: "level \<Rightarrow> string \<Rightarrow> log_arg list \<Rightarrow> world \<Rightarrow> world" where
  "log_msg lv txt args w = w\<lparr>log := log w @ [(lv, txt, args)]\<rparr>"

definition emit_event :: "event \<Rightarrow> world \<Rightarrow> world" where
  "emit_event e w = w\<lparr>events := events w @ [e]\<rparr>"

text \<open>\<^verbatim>\<open>time.sleep(d)\<close> for a duration that is not negative.\<close>

definition sleep :: "timedelta \<Rightarrow> world \<Rightarrow> world" where
  "sleep d w = emit_event (Sleep d) (w\<lparr>clock := clock w + d\<rparr>)"

text \<open>\<^verbatim>\<open>self.server_process.poll()\<close>, when a process is attached.\<close>

definition poll_server :: "world \<Rightarrow> world" where
  "poll_server w = w\<lparr>server_process := map_option poll (server_process w)\<rparr>"

text \<open>\<^verbatim>\<open>self.server_process and self.server_process.poll() is None\<close>, after the poll.\<close>

definition server_alive :: "world \<Rightarrow> bool" where
  "server_alive w = (case server_process w of None \<Rightarrow> False | Some p \<Rightarrow> returncode p = None)"

subsection \<open>Process controller\<close>

text \<open>\<^verbatim>\<open>' '.join(xs)\<close>\<close>

fun join_space :: "string list \<Rightarrow> string" where
  "join_space [] = []"
| "join_space [x] = x"
| "join_space (x # y # ys) = x @ '' '' @ join_space (y # ys)"

text \<open>
  The call of \<^verbatim>\<open>subprocess.Popen\<close> (lines 93 to 117): through the shell with the
  quoted path on Windows when the path holds a space, with the argument list otherwise;
  \<open>CHR 0x22\<close> is the double quote.
\<close>

definition popen_event :: "world \<Rightarrow> event" where
  "popen_event w =
     (if win32 (env w) \<and> CHR '' '' \<in> set (resolved_path (env w))
      then Popen_shell
             ([CHR 0x22] @ resolved_path (env w) @ [CHR 0x22]
              @ (if server_args (config w) \<noteq> []
                 then '' '' @ join_space (server_args (config w))
                 else []))
             (working_dir (env w))
      else Popen_argv (resolved_path (env w) # server_args (config w)) (working_dir (env w)))"

text \<open>
  \<^verbatim>\<open>start_server\<close> (lines 56 to 175). Everything after the path check runs inside
  \<^verbatim>\<open>try\<close> / \<^verbatim>\<open>except Exception\<close>: an exception is logged and the result is \<open>False\<close>.
\<close>

definition start_server :: "world \<Rightarrow> bool \<times> world" where
  "start_server w =
     (if \<not> path_exists (env w) \<and> \<not> name_exists (env w) \<and> \<not> beside_config_exists (env w)
      then (False, log_msg ERROR ''Server executable not found: {self.config['server_path']}''
                     [Str (server_path (config w))] w)
      else
        (let path = resolved_path (env w);
             cmd = path # server_args (config w);
             w1 = log_msg INFO ''Starting server: {' '.join(cmd)}'' [Str (join_space cmd)] w;
             w2 = log_msg INFO ''Working directory: {working_dir}'' [Str (working_dir (env w))] w1;
             w3 = log_msg INFO ''Starting server in directory: {working_dir}''
                    [Str (working_dir (env w))] w2;
             w4 = w3\<lparr>launches := Suc (launches w3)\<rparr>
         in case spawn (env w) (launches w) of
              Inl e \<Rightarrow> (False, log_msg ERROR ''Failed to start server: {e}'' [Exc e] w4)
            | Inr c \<Rightarrow>
                (let w5 = emit_event (popen_event w)
                            (w4\<lparr>server_process := Some (new_popen c)\<rparr>);
                     w6 = (case pipe_write (child_pipe c) of
                             Inr u \<Rightarrow>
                               log_msg DEBUG ''Primed stdin with newline'' []
                                 (emit_event (Write newline)
                                    (w5\<lparr>server_process :=
                                          Some ((new_popen c)\<lparr>received := [newline]\<rparr>)\<rparr>))
                           | Inl e \<Rightarrow> log_msg WARNING ''Could not prime stdin: {e}'' [Exc e] w5);
                     w7 = poll_server (sleep (timedelta_seconds 3) w6)
                 in case server_process w7 of
                      None \<Rightarrow>
                        (False, log_msg ERROR ''Failed to start server: {e}'' [Exc AttributeError] w7)
                    | Some p \<Rightarrow>
                        (case returncode p of
                           Some return_code \<Rightarrow>
                             (let w8 = log_msg ERROR
                                         ''Server process exited immediately with code: {return_code}''
                                         [Num return_code] w7
                              in case diagnostics (env w) of
                                   Inl e \<Rightarrow>
                                     (False, log_msg ERROR ''Failed to start server: {e}'' [Exc e] w8)
                                 | Inr records \<Rightarrow>
                                     (False,
                                      log_msg ERROR ''Check server logs in: {log_dir}''
                                        [Str (log_dir (env w))]
                                        (log_msg ERROR
                                           ''Common issues: Port already in use, missing config files, or database connection problems''
                                           []
                                           (w8\<lparr>log := log w8 @ records\<rparr>))))
                         | None \<Rightarrow>
                             (True, log_msg INFO ''Server started with PID: {self.server_process.pid}''
                                      [Num (int (pid p))] w7)))))"

text \<open>
  \<^verbatim>\<open>send_command\<close> (lines 177 to 190). The write is the one step that can raise; it
  stands inside \<^verbatim>\<open>try\<close> / \<^verbatim>\<open>except Exception\<close>, so its exception becomes the result
  \<open>False\<close> and an error record.
\<close>

definition send_command :: "string \<Rightarrow> world \<Rightarrow> bool \<times> world" where
  "send_command text w =
     (case server_process w of
        None \<Rightarrow> (False, log_msg ERROR ''Server process not running or stdin not available'' [] w)
      | Some p \<Rightarrow>
          (case stdin p of
             None \<Rightarrow>
               (False, log_msg ERROR ''Server process not running or stdin not available'' [] w)
           | Some q \<Rightarrow>
               (let w1 = log_msg INFO ''Sending command: {command}'' [Str text] w
                in case pipe_write q of
                     Inr u \<Rightarrow>
                       (True, emit_event (Write (text @ newline))
                                (w1\<lparr>server_process :=
                                      Some (p\<lparr>received := received p @ [text @ newline]\<rparr>)\<rparr>))
                   | Inl e \<Rightarrow>
                       (False, log_msg ERROR ''Failed to send command '{command}': {e}''
                                 [Str text, Exc e] w1))))"

text \<open>
  \<^verbatim>\<open>wait_for_server_exit(timeout)\<close> (lines 192 to 206), for the timeouts its callers
  pass (a number of seconds).
\<close>

definition wait_for_server_exit :: "int \<Rightarrow> world \<Rightarrow> bool \<times> world" where
  "wait_for_server_exit timeout w =
     (case server_process w of
        None \<Rightarrow> (True, w)
      | Some p \<Rightarrow>
          (case popen_wait p of
             Inr p' \<Rightarrow>
               (True, log_msg INFO ''Server process exited'' []
                        (emit_event (Wait timeout) (w\<lparr>server_process := Some p'\<rparr>)))
           | Inl e \<Rightarrow>
               (let w1 = emit_event (Wait timeout)
                           (w\<lparr>clock := clock w + timedelta_seconds timeout\<rparr>)
                in if e = TimeoutExpired
                   then (False, log_msg WARNING ''Server did not exit within timeout period'' [] w1)
                   else (False, log_msg ERROR ''Error waiting for server exit: {e}'' [Exc e] w1))))"

text \<open>\<^verbatim>\<open>self.server_process.terminate()\<close> and \<^verbatim>\<open>self.server_process.kill()\<close>\<close>

definition terminate_server :: "world \<Rightarrow> world" where
  "terminate_server w =
     emit_event Terminate
       (w\<lparr>server_process := map_option (\<lambda>p. p\<lparr>terminated := True\<rparr>) (server_process w)\<rparr>)"

definition kill_server :: "world \<Rightarrow> world" where
  "kill_server w =
     emit_event Kill
       (w\<lparr>server_process := map_option (\<lambda>p. p\<lparr>killed := True\<rparr>) (server_process w)\<rparr>)"

subsection \<open>Supervisor loop: \<^verbatim>\<open>reboot_cycle\<close>\<close>

text \<open>
  The scheduled stop, lines 312 to 325 of \<^verbatim>\<open>reboot_cycle\<close>: the exit command, the
  wait of 60 seconds, then terminate, 5 seconds of sleep, and kill.
\<close>

definition scheduled_stop :: "world \<Rightarrow> world" where
  "scheduled_stop w =
     (let w1 = log_msg INFO ''Sending exit command to server'' [] w;
          w2 = snd (send_command ''exit'' w1);
          w3 = poll_server (snd (wait_for_server_exit 60 w2))
      in if server_alive w3
         then (let w4 = log_msg WARNING ''Server did not exit gracefully, terminating...'' [] w3;
                   w5 = poll_server (sleep (timedelta_seconds 5) (terminate_server w4))
               in if server_alive w5 then kill_server w5 else w5)
         else w3)"

text \<open>The handler of line 339: any exception of the cycle is logged, then 60 seconds of sleep.\<close>

definition cycle_failed :: "error \<Rightarrow> world \<Rightarrow> world" where
  "cycle_failed e w =
     sleep (timedelta_seconds 60) (log_msg ERROR ''Error in reboot cycle: {e}'' [Exc e] w)"

text \<open>
  Lines 292 to 333: one cycle once a server runs. The planner's timers and records are
  added to the trace and the log; an exception of the schedule calculator, of the
  planner, or of \<^verbatim>\<open>time.sleep\<close> on a negative restart delay goes to the handler.
\<close>

definition cycle_reboot :: "world \<Rightarrow> world" where
  "cycle_reboot w =
     (case get_next_reboot_time (clock w) (reboot_schedule (config w)) of
        Inl e \<Rightarrow> cycle_failed e w
      | Inr None \<Rightarrow>
          sleep (timedelta_seconds 3600)
            (log_msg WARNING ''No reboot schedule configured, sleeping for 1 hour'' [] w)
      | Inr (Some next_reboot) \<Rightarrow>
          (let w1 = log_msg INFO ''Next reboot scheduled for: {next_reboot}'' [Time next_reboot] w;
               p = schedule_announcements (clock w1) (announcement_intervals (config w1)) next_reboot;
               w2 = w1\<lparr>log := log w1 @ logged p,
                       events := events w1 @ map (\<lambda>t. TimerStart (wait t) (command t)) (timers p)\<rparr>
           in case raised p of
                Some e \<Rightarrow> cycle_failed e w2
              | None \<Rightarrow>
                  (let wait_seconds = next_reboot - clock w2;
                       w3 = (if wait_seconds > 0
                             then sleep wait_seconds
                                    (log_msg INFO
                                       ''Waiting {wait_seconds:.0f} seconds until reboot time...''
                                       [Duration wait_seconds] w2)
                             else w2);
                       w4 = scheduled_stop w3;
                       restart_delay = restart_delay_seconds (config w4);
                       w5 = log_msg INFO ''Waiting {restart_delay} seconds before restart...''
                              [Num restart_delay] w4
                   in if restart_delay < 0 then cycle_failed ValueError w5
                      else (sleep (timedelta_seconds restart_delay) w5)\<lparr>server_process := None\<rparr>)))"

text \<open>
  One pass through the body of the \<^verbatim>\<open>while\<close> loop (lines 284 to 341).
  \<^verbatim>\<open>KeyboardInterrupt\<close> arrives from outside at any moment and is not part of the
  model.
\<close>

definition reboot_cycle_body :: "world \<Rightarrow> world" where
  "reboot_cycle_body w =
     (let w1 = poll_server w
      in if \<not> server_alive w1
         then (case start_server w1 of
                 (False, w2) \<Rightarrow>
                   sleep (timedelta_seconds 60)
                     (log_msg ERROR ''Failed to start server, retrying in 60 seconds...'' [] w2)
               | (True, w2) \<Rightarrow> cycle_reboot w2)
         else cycle_reboot w1)"

text \<open>
  \<^verbatim>\<open>while self.running\<close>: the loop has no exit of its own, so the model runs its first
  \<open>n\<close> passes.
\<close>

fun reboot_cycle_loop :: "nat \<Rightarrow> world \<Rightarrow> world" where
  "reboot_cycle_loop 0 w = w"
| "reboot_cycle_loop (Suc n) w =
     (if running w then reboot_cycle_loop n (reboot_cycle_body w) else w)"

definition reboot_cycle :: "nat \<Rightarrow> world \<Rightarrow> world" where
  "reboot_cycle n w = reboot_cycle_loop n (log_msg INFO ''Auto reboot tool started'' [] w)"

subsection \<open>\<^verbatim>\<open>start\<close> and \<^verbatim>\<open>stop\<close>\<close>

text \<open>\<^verbatim>\<open>start\<close> (lines 343 to 352); the thread it starts runs \<^verbatim>\<open>reboot_cycle\<close>.\<close>

definition start :: "world \<Rightarrow> world" where
  "start w =
     (if running w then log_msg WARNING ''Tool is already running'' [] w
      else log_msg INFO ''Auto reboot tool thread started'' []
             (emit_event ThreadStart (w\<lparr>running := True, reboot_thread := True\<rparr>)))"

text \<open>\<^verbatim>\<open>stop\<close> (lines 354 to 370)\<close>

definition stop :: "world \<Rightarrow> world" where
  "stop w =
     (let w1 = poll_server (w\<lparr>running := False\<rparr>);
          w2 = (if server_alive w1
                then (let w3 = log_msg INFO ''Stopping server...'' [] w1;
                          w4 = snd (send_command ''exit'' w3);
                          w5 = poll_server (snd (wait_for_server_exit 30 w4))
                      in if server_alive w5 then terminate_server w5 else w5)
                else w1);
          w6 = (if reboot_thread w2 then emit_event (Join 10) w2 else w2)
      in log_msg INFO ''Auto reboot tool stopped'' [] w6)"

subsection \<open>Example configurations\<close>

text \<open>
  Concrete surroundings at which the theorems below are instantiated: a child that
  never exits by itself, a child that exits at once with return code 1, and a tool that
  runs with no process attached, at 03:00 on day 5.
\<close>

definition stubborn_child :: child where
  "stubborn_child =
     \<lparr>child_pid = 4242, child_pipe = PipeOpen, exits_at_start = None,
      heeds_exit = False, heeds_terminate = False\<rparr>"

definition crashing_child :: child where
  "crashing_child =
     \<lparr>child_pid = 4243, child_pipe = PipeOpen, exits_at_start = Some 1,
      heeds_exit = True, heeds_terminate = True\<rparr>"

definition example_config :: config where
  "example_config =
     \<lparr>server_path = ''server/Intersect Server.exe'', server_args = [],
      reboot_schedule = [\<lparr>hour = 4, minute = 0, enabled = Some True\<rparr>],
      announcement_intervals =
        [\<lparr>seconds_before = None, minutes_before = Some 10,
          message = ''Reboot in {minutes} minutes''\<rparr>],
      restart_delay_seconds = 5\<rparr>"

definition example_env :: "child \<Rightarrow> env" where
  "example_env c =
     \<lparr>path_exists = True, name_exists = False, beside_config_exists = False,
      resolved_path = ''/srv/server/Intersect Server.exe'', working_dir = ''/srv/server'',
      log_dir = ''/srv/server/logs'', win32 = False,
      spawn = (\<lambda>n. Inr c), diagnostics = Inr []\<rparr>"

definition example_world :: "child \<Rightarrow> world" where
  "example_world c =
     \<lparr>config = example_config, env = example_env c, server_process = None,
      running = True, reboot_thread = True, clock = datetime_at 5 3 0 0 0,
      log = [], events = [], launches = 0\<rparr>"

text \<open>The same tool with the child attached and running.\<close>

definition attached_world :: "child \<Rightarrow> world" where
  "attached_world c = (example_world c)\<lparr>server_process := Some (new_popen c), launches := 1\<rparr>"

section \<open>Properties\<close>

subsection \<open>Schedule calculator\<close>

lemma get_enabled_iff: "get_enabled s \<longleftrightarrow> enabled s \<noteq> Some False"
  by (cases "enabled s") (simp_all add: get_enabled_def)

lemma reboot_times_valid:
  "valid_schedule schedule \<Longrightarrow>
   reboot_times now schedule = Inr (map (candidate now) (filter get_enabled schedule))"
proof (induction schedule)
  case Nil
  then show ?case by simp
next
  case (Cons s rest)
  then have rest: "reboot_times now rest = Inr (map (candidate now) (filter get_enabled rest))"
    by (simp add: valid_schedule_def split: if_splits)
  show ?case
  proof (cases "get_enabled s")
    case False
    then show ?thesis using rest by simp
  next
    case True
    with Cons.prems have "valid_entry s"
      by (simp add: valid_schedule_def)
    then have "datetime_replace now (hour s) (minute s)
               = Inr (datetime_at (date_of now) (hour s) (minute s) 0 0)"
      by (simp add: datetime_replace_def valid_entry_def)
    then show ?thesis using True rest
      by (simp add: candidate_def Let_def timedelta_days_def)
  qed
qed

lemma fold_py_min: "fold (\<lambda>y m. if y < m then y else m) xs (x::int) = Min (set (x # xs))"
proof (induction xs arbitrary: x)
  case Nil
  then show ?case by simp
next
  case (Cons y ys)
  have "Min (set (x # y # ys)) = Min (set ((if y < x then y else x) # ys))"
  proof (cases "ys = []")
    case True
    then show ?thesis by (simp add: min_def)
  next
    case False
    then have "Min (insert x (insert y (set ys))) = min (min x y) (Min (set ys))"
      by (simp add: min.assoc)
    moreover have "Min (insert (if y < x then y else x) (set ys))
                   = min (if y < x then y else x) (Min (set ys))"
      using False by simp
    ultimately show ?thesis by (simp add: min_def)
  qed
  then show ?case using Cons.IH [of "if y < x then y else x"] by simp
qed

lemma py_min_Min: "ts \<noteq> [] \<Longrightarrow> py_min ts = Inr (Min (set ts))"
  by (cases ts) (simp_all only: py_min.simps fold_py_min, simp)

lemma get_next_reboot_time_valid:
  "valid_schedule schedule \<Longrightarrow>
   get_next_reboot_time now schedule = Inr (next_reboot_spec now schedule)"
proof -
  assume v: "valid_schedule schedule"
  have f: "filter (\<lambda>s. enabled s \<noteq> Some False) schedule = filter get_enabled schedule"
    by (rule filter_cong) (simp_all add: get_enabled_iff)
  show ?thesis
  proof (cases "filter get_enabled schedule = []")
    case True
    then show ?thesis
      using reboot_times_valid [OF v, of now]
      by (simp add: get_next_reboot_time_def next_reboot_spec_def f)
  next
    case False
    then have ne: "map (candidate now) (filter get_enabled schedule) \<noteq> []" by simp
    show ?thesis
      using reboot_times_valid [OF v, of now] py_min_Min [OF ne] False
      by (simp add: get_next_reboot_time_def next_reboot_spec_def f Let_def)
  qed
qed

lemma day_bounds:
  "0 \<le> h \<Longrightarrow> h < 24 \<Longrightarrow> 0 \<le> m \<Longrightarrow> m < 60 \<Longrightarrow>
   0 \<le> ((h * 60 + m) * 60) * us_per_second \<and> ((h * 60 + m) * 60) * us_per_second < us_per_day"
  for h m :: int
  by (simp add: us_per_second_def us_per_day_def)

lemma candidate_after_now:
  assumes "valid_entry s"
  shows "now < candidate now s"
proof -
  let ?c = "datetime_at (date_of now) (hour s) (minute s) 0 0"
  have "now < (now div us_per_day) * us_per_day + us_per_day"
    using pos_mod_bound [of us_per_day now] div_mult_mod_eq [of now us_per_day]
    by (simp add: us_per_day_def us_per_second_def)
  moreover have "(now div us_per_day) * us_per_day \<le> ?c"
    using day_bounds [of "hour s" "minute s"] assms
    by (simp add: datetime_at_def date_of_def valid_entry_def)
  ultimately have "now < ?c + us_per_day" by linarith
  then show ?thesis by (simp add: candidate_def Let_def)
qed

lemma next_reboot_spec_after_now:
  assumes "valid_schedule schedule" and "next_reboot_spec now schedule = Some t"
  shows "now < t"
proof -
  let ?en = "filter get_enabled schedule"
  have f: "filter (\<lambda>s. enabled s \<noteq> Some False) schedule = ?en"
    by (rule filter_cong) (simp_all add: get_enabled_iff)
  from assms(2) have ne: "?en \<noteq> []" and t: "t = Min (set (map (candidate now) ?en))"
    by (auto simp: next_reboot_spec_def f Let_def split: if_splits)
  from ne have "Min (set (map (candidate now) ?en)) \<in> set (map (candidate now) ?en)"
    by (intro Min_in) (auto simp: filter_empty_conv)
  then obtain s where "s \<in> set ?en" and "t = candidate now s"
    using t by auto
  moreover from this(1) assms(1) have "valid_entry s"
    by (simp add: valid_schedule_def list_all_iff)
  ultimately show ?thesis
    using candidate_after_now by simp
qed

lemma reboot_times_no_enabled:
  "filter get_enabled schedule = [] \<Longrightarrow> reboot_times now schedule = Inr []"
  by (induction schedule) (simp_all split: if_splits)

lemma reboot_times_some_enabled:
  "filter get_enabled schedule \<noteq> [] \<Longrightarrow> reboot_times now schedule \<noteq> Inr []"
  by (induction schedule) (auto split: sum.splits)

lemma reboot_times_default_enabled:
  "reboot_times now schedule =
   reboot_times now (map (\<lambda>s. s\<lparr>enabled := Some True\<rparr>)
                         (filter (\<lambda>s. enabled s \<noteq> Some False) schedule))"
  by (induction schedule) (simp_all add: get_enabled_iff split: sum.splits)

subsubsection \<open>C2\<close>

text \<open>
  Claim C2. For every schedule with at least one enabled entry (entries as the
  configuration describes them: hour in 0..23, minute in 0..59) and every current time
  \<open>now\<close>, \<open>get_next_reboot_time\<close> returns an instant strictly greater than \<open>now\<close>:
  never \<open>now\<close> itself, never an instant in the past. In particular, with the single
  entry 04:00 (enabled) and \<open>now\<close> = 04:00:01 on any day \<open>d\<close>, the result is 04:00:00 of
  day \<open>d + 1\<close>.
\<close>

theorem next_reboot_strictly_after_now:
  assumes "valid_schedule schedule" and "filter get_enabled schedule \<noteq> []"
  shows "(\<exists>t. get_next_reboot_time now schedule = Inr (Some t) \<and> now < t)
         \<and> get_next_reboot_time (datetime_at d 4 0 1 0)
               [\<lparr>hour = 4, minute = 0, enabled = Some True\<rparr>]
             = Inr (Some (datetime_at (d + 1) 4 0 0 0))"
proof
  have f: "filter (\<lambda>s. enabled s \<noteq> Some False) schedule = filter get_enabled schedule"
    by (rule filter_cong) (simp_all add: get_enabled_iff)
  obtain t where t: "next_reboot_spec now schedule = Some t"
    using assms(2) by (simp add: next_reboot_spec_def f Let_def)
  then have "now < t"
    using next_reboot_spec_after_now [OF assms(1)] by simp
  then show "\<exists>t. get_next_reboot_time now schedule = Inr (Some t) \<and> now < t"
    using get_next_reboot_time_valid [OF assms(1), of now] t by simp
next
  let ?now = "datetime_at d 4 0 1 0"
  have "?now div us_per_day = d"
    by (simp add: datetime_at_def us_per_day_def us_per_second_def)
  then have "datetime_replace ?now 4 0 = Inr (datetime_at d 4 0 0 0)"
    by (simp add: datetime_replace_def date_of_def)
  moreover have "datetime_at d 4 0 0 0 \<le> ?now"
    by (simp add: datetime_at_def us_per_second_def)
  moreover have "datetime_at d 4 0 0 0 + timedelta_days 1 = datetime_at (d + 1) 4 0 0 0"
    by (simp add: datetime_at_def timedelta_days_def algebra_simps)
  ultimately show "get_next_reboot_time ?now [\<lparr>hour = 4, minute = 0, enabled = Some True\<rparr>]
                   = Inr (Some (datetime_at (d + 1) 4 0 0 0))"
    by (simp add: get_next_reboot_time_def get_enabled_def)
qed

theorem next_reboot_strictly_after_now_witness:
  "(\<exists>t. get_next_reboot_time (datetime_at 7 4 0 0 0)
           [\<lparr>hour = 23, minute = 59, enabled = Some False\<rparr>,
            \<lparr>hour = 4, minute = 0, enabled = None\<rparr>] = Inr (Some t)
        \<and> datetime_at 7 4 0 0 0 < t)
   \<and> get_next_reboot_time (datetime_at 7 4 0 1 0) [\<lparr>hour = 4, minute = 0, enabled = Some True\<rparr>]
       = Inr (Some (datetime_at 8 4 0 0 0))"
  using next_reboot_strictly_after_now
    [of "[\<lparr>hour = 23, minute = 59, enabled = Some False\<rparr>,
          \<lparr>hour = 4, minute = 0, enabled = None\<rparr>]" "datetime_at 7 4 0 0 0" 7]
  by (simp add: valid_schedule_def valid_entry_def get_enabled_def)

subsubsection \<open>C3\<close>

text \<open>
  Claim C3. \<open>get_next_reboot_time\<close> equals the minimum, over all enabled entries, of
  today's date at (hour, minute, second 0) advanced by one day when that candidate is
  not after \<open>now\<close> (\<open>next_reboot_spec\<close>, written from the specification's words); it is
  none exactly when no entry is enabled; and with the enabled entries 04:00 and 16:00
  and \<open>now\<close> = 10:00 on day \<open>d\<close> the result is 16:00 on day \<open>d\<close>.
\<close>

theorem next_reboot_is_least_candidate:
  "(valid_schedule schedule \<longrightarrow>
      get_next_reboot_time now schedule = Inr (next_reboot_spec now schedule))
   \<and> (get_next_reboot_time now schedule = Inr None \<longleftrightarrow> filter get_enabled schedule = [])
   \<and> get_next_reboot_time (datetime_at d 10 0 0 0)
        [\<lparr>hour = 4, minute = 0, enabled = Some True\<rparr>,
         \<lparr>hour = 16, minute = 0, enabled = Some True\<rparr>]
      = Inr (Some (datetime_at d 16 0 0 0))"
proof (intro conjI impI)
  assume "valid_schedule schedule"
  then show "get_next_reboot_time now schedule = Inr (next_reboot_spec now schedule)"
    by (rule get_next_reboot_time_valid)
next
  show "get_next_reboot_time now schedule = Inr None \<longleftrightarrow> filter get_enabled schedule = []"
  proof
    assume none: "get_next_reboot_time now schedule = Inr None"
    show "filter get_enabled schedule = []"
    proof (rule ccontr)
      assume "filter get_enabled schedule \<noteq> []"
      then have "reboot_times now schedule \<noteq> Inr []"
        by (rule reboot_times_some_enabled)
      with none show False
        by (auto simp: get_next_reboot_time_def split: sum.splits if_splits)
    qed
  next
    assume "filter get_enabled schedule = []"
    then show "get_next_reboot_time now schedule = Inr None"
      by (simp add: get_next_reboot_time_def reboot_times_no_enabled)
  qed
next
  let ?now = "datetime_at d 10 0 0 0"
  have "?now div us_per_day = d"
    by (simp add: datetime_at_def us_per_day_def us_per_second_def)
  then have "datetime_replace ?now 4 0 = Inr (datetime_at d 4 0 0 0)"
    and "datetime_replace ?now 16 0 = Inr (datetime_at d 16 0 0 0)"
    by (simp_all add: datetime_replace_def date_of_def)
  moreover have "datetime_at d 4 0 0 0 \<le> ?now" and "\<not> datetime_at d 16 0 0 0 \<le> ?now"
    and "datetime_at d 16 0 0 0 < datetime_at d 4 0 0 0 + timedelta_days 1"
    by (simp_all add: datetime_at_def timedelta_days_def us_per_day_def us_per_second_def)
  ultimately show "get_next_reboot_time ?now
        [\<lparr>hour = 4, minute = 0, enabled = Some True\<rparr>,
         \<lparr>hour = 16, minute = 0, enabled = Some True\<rparr>]
      = Inr (Some (datetime_at d 16 0 0 0))"
    by (simp add: get_next_reboot_time_def get_enabled_def)
qed

theorem next_reboot_is_least_candidate_witness:
  "get_next_reboot_time (datetime_at 3 10 0 0 0)
     [\<lparr>hour = 4, minute = 0, enabled = Some True\<rparr>,
      \<lparr>hour = 16, minute = 0, enabled = Some True\<rparr>]
   = Inr (next_reboot_spec (datetime_at 3 10 0 0 0)
     [\<lparr>hour = 4, minute = 0, enabled = Some True\<rparr>,
      \<lparr>hour = 16, minute = 0, enabled = Some True\<rparr>])
   \<and> get_next_reboot_time (datetime_at 3 10 0 0 0)
     [\<lparr>hour = 4, minute = 0, enabled = Some True\<rparr>,
      \<lparr>hour = 16, minute = 0, enabled = Some True\<rparr>] = Inr (Some (datetime_at 3 16 0 0 0))"
proof -
  have "valid_schedule [\<lparr>hour = 4, minute = 0, enabled = Some True\<rparr>,
                        \<lparr>hour = 16, minute = 0, enabled = Some True\<rparr>]"
    by (simp add: valid_schedule_def valid_entry_def get_enabled_def)
  then show ?thesis
    using next_reboot_is_least_candidate
      [of "[\<lparr>hour = 4, minute = 0, enabled = Some True\<rparr>,
            \<lparr>hour = 16, minute = 0, enabled = Some True\<rparr>]" "datetime_at 3 10 0 0 0" 3]
    by blast
qed

subsubsection \<open>C10\<close>

text \<open>
  Claim C10. A schedule entry that omits \<open>enabled\<close> is treated as enabled, and only
  the entries whose \<open>enabled\<close> is explicitly false are left out. On a well-formed
  schedule \<open>get_next_reboot_time\<close> is the least candidate instant over exactly the
  entries whose \<open>enabled\<close> is not \<open>Some False\<close>; so an entry without the field bounds
  the result by its own candidate instant. With 04:00 (enabled) and 16:00 (field
  omitted) at 10:00 the result is 16:00 today, which only the omitted entry can give;
  with 16:00 explicitly disabled it is 04:00 tomorrow. An entry without the field is
  read even when its hour is out of range (the call raises), an entry with \<open>enabled\<close>
  false never is. In general the result is that of the schedule in which the entries
  without the field are marked enabled and the explicitly disabled ones are removed.
\<close>

theorem omitted_enabled_means_enabled:
  "(valid_schedule schedule \<longrightarrow>
      get_next_reboot_time now schedule
      = Inr (if filter (\<lambda>s. enabled s \<noteq> Some False) schedule = [] then None
             else Some (Min (set (map (candidate now)
                                   (filter (\<lambda>s. enabled s \<noteq> Some False) schedule))))))
   \<and> (valid_schedule schedule \<and> s \<in> set schedule \<and> enabled s = None \<longrightarrow>
        (\<exists>t. get_next_reboot_time now schedule = Inr (Some t)
             \<and> now < t \<and> t \<le> candidate now s))
   \<and> get_next_reboot_time (datetime_at d 10 0 0 0)
        [\<lparr>hour = 4, minute = 0, enabled = Some True\<rparr>,
         \<lparr>hour = 16, minute = 0, enabled = None\<rparr>]
       = Inr (Some (datetime_at d 16 0 0 0))
   \<and> get_next_reboot_time (datetime_at d 10 0 0 0)
        [\<lparr>hour = 4, minute = 0, enabled = Some True\<rparr>,
         \<lparr>hour = 16, minute = 0, enabled = Some False\<rparr>]
       = Inr (Some (datetime_at (d + 1) 4 0 0 0))
   \<and> get_next_reboot_time now (\<lparr>hour = 24, minute = 0, enabled = None\<rparr> # schedule)
       = Inl ValueError
   \<and> get_next_reboot_time now (\<lparr>hour = 24, minute = 0, enabled = Some False\<rparr> # schedule)
       = get_next_reboot_time now schedule
   \<and> get_next_reboot_time now schedule =
       get_next_reboot_time now
         (map (\<lambda>s. s\<lparr>enabled := Some True\<rparr>)
              (filter (\<lambda>s. enabled s \<noteq> Some False) schedule))
   \<and> get_next_reboot_time now (\<lparr>hour = h, minute = m, enabled = None\<rparr> # schedule) =
       get_next_reboot_time now (\<lparr>hour = h, minute = m, enabled = Some True\<rparr> # schedule)"
proof (intro conjI impI)
  assume v: "valid_schedule schedule"
  show "get_next_reboot_time now schedule
      = Inr (if filter (\<lambda>s. enabled s \<noteq> Some False) schedule = [] then None
             else Some (Min (set (map (candidate now)
                                   (filter (\<lambda>s. enabled s \<noteq> Some False) schedule)))))"
    using get_next_reboot_time_valid [OF v, of now]
    by (simp only: next_reboot_spec_def Let_def)
next
  assume a: "valid_schedule schedule \<and> s \<in> set schedule \<and> enabled s = None"
  let ?en = "filter (\<lambda>s. enabled s \<noteq> Some False) schedule"
  from a have v: "valid_schedule schedule" and s: "s \<in> set ?en"
    by simp_all
  from s have ne: "?en \<noteq> []"
    by (cases ?en) simp_all
  let ?t = "Min (set (map (candidate now) ?en))"
  have spec: "next_reboot_spec now schedule = Some ?t"
    using ne by (simp only: next_reboot_spec_def Let_def if_False)
  then have "get_next_reboot_time now schedule = Inr (Some ?t)"
    using get_next_reboot_time_valid [OF v, of now] by simp
  moreover have "now < ?t"
    using next_reboot_spec_after_now [OF v spec] .
  moreover have "?t \<le> candidate now s"
    using s by (intro Min_le) auto
  ultimately show "\<exists>t. get_next_reboot_time now schedule = Inr (Some t)
             \<and> now < t \<and> t \<le> candidate now s"
    by blast
next
  let ?now = "datetime_at d 10 0 0 0"
  have "?now div us_per_day = d"
    by (simp add: datetime_at_def us_per_day_def us_per_second_def)
  then have r: "datetime_replace ?now 4 0 = Inr (datetime_at d 4 0 0 0)"
    "datetime_replace ?now 16 0 = Inr (datetime_at d 16 0 0 0)"
    by (simp_all add: datetime_replace_def date_of_def)
  have o: "datetime_at d 4 0 0 0 \<le> ?now" "\<not> datetime_at d 16 0 0 0 \<le> ?now"
    "datetime_at d 16 0 0 0 < datetime_at d 4 0 0 0 + timedelta_days 1"
    "datetime_at d 4 0 0 0 + timedelta_days 1 = datetime_at (d + 1) 4 0 0 0"
    by (simp_all add: datetime_at_def timedelta_days_def us_per_day_def us_per_second_def)
  show "get_next_reboot_time ?now
        [\<lparr>hour = 4, minute = 0, enabled = Some True\<rparr>,
         \<lparr>hour = 16, minute = 0, enabled = None\<rparr>]
       = Inr (Some (datetime_at d 16 0 0 0))"
    using r o(1,2,3) by (simp add: get_next_reboot_time_def get_enabled_def)
  show "get_next_reboot_time ?now
        [\<lparr>hour = 4, minute = 0, enabled = Some True\<rparr>,
         \<lparr>hour = 16, minute = 0, enabled = Some False\<rparr>]
       = Inr (Some (datetime_at (d + 1) 4 0 0 0))"
    using r o(1,4) by (simp add: get_next_reboot_time_def get_enabled_def)
next
  show "get_next_reboot_time now (\<lparr>hour = 24, minute = 0, enabled = None\<rparr> # schedule)
       = Inl ValueError"
    by (simp add: get_next_reboot_time_def get_enabled_def datetime_replace_def)
  show "get_next_reboot_time now (\<lparr>hour = 24, minute = 0, enabled = Some False\<rparr> # schedule)
       = get_next_reboot_time now schedule"
    by (simp add: get_next_reboot_time_def get_enabled_def)
  show "get_next_reboot_time now schedule =
     get_next_reboot_time now
       (map (\<lambda>s. s\<lparr>enabled := Some True\<rparr>) (filter (\<lambda>s. enabled s \<noteq> Some False) schedule))"
    unfolding get_next_reboot_time_def
    using reboot_times_default_enabled [of now schedule] by simp
  show "get_next_reboot_time now (\<lparr>hour = h, minute = m, enabled = None\<rparr> # schedule) =
     get_next_reboot_time now (\<lparr>hour = h, minute = m, enabled = Some True\<rparr> # schedule)"
    by (simp add: get_next_reboot_time_def get_enabled_def)
qed

theorem omitted_enabled_means_enabled_witness:
  "(\<exists>t. get_next_reboot_time (datetime_at 3 10 0 0 0)
            [\<lparr>hour = 4, minute = 0, enabled = Some True\<rparr>,
             \<lparr>hour = 16, minute = 0, enabled = None\<rparr>] = Inr (Some t)
        \<and> datetime_at 3 10 0 0 0 < t \<and> t \<le> datetime_at 3 16 0 0 0)
   \<and> get_next_reboot_time (datetime_at 3 10 0 0 0)
        [\<lparr>hour = 4, minute = 0, enabled = Some True\<rparr>,
         \<lparr>hour = 16, minute = 0, enabled = None\<rparr>]
       = Inr (Some (datetime_at 3 16 0 0 0))"
proof -
  let ?now = "datetime_at 3 10 0 0 0"
  let ?s = "\<lparr>hour = 16, minute = 0, enabled = None\<rparr>"
  let ?schedule = "[\<lparr>hour = 4, minute = 0, enabled = Some True\<rparr>, ?s]"
  note t = omitted_enabled_means_enabled [of ?schedule ?now ?s 3]
  have v: "valid_schedule ?schedule \<and> ?s \<in> set ?schedule \<and> enabled ?s = None"
    by (simp add: valid_schedule_def valid_entry_def get_enabled_def)
  have c: "candidate ?now ?s = datetime_at 3 16 0 0 0"
    by (simp add: candidate_def date_of_def datetime_at_def us_per_day_def us_per_second_def)
  from t v have "\<exists>t. get_next_reboot_time ?now ?schedule = Inr (Some t)
             \<and> ?now < t \<and> t \<le> candidate ?now ?s"
    by blast
  moreover from t have "get_next_reboot_time ?now ?schedule = Inr (Some (datetime_at 3 16 0 0 0))"
    by blast
  ultimately show ?thesis
    by (simp only: c)
qed

subsection \<open>Announcement planner\<close>







lemma announce_filter:
  assumes "\<And>i. i \<in> set xs \<Longrightarrow> \<not> P i \<Longrightarrow>
             plan_interval reboot_time i = Inr None \<or> missed now reboot_time i"
  shows "announce now reboot_time (filter P xs) = announce now reboot_time xs"
  using assms
proof (induction xs)
  case Nil
  then show ?case by simp
next
  case (Cons i rest)
  then have rest: "announce now reboot_time (filter P rest) = announce now reboot_time rest"
    by simp
  show ?case
  proof (cases "P i")
    case True
    then show ?thesis using rest by (simp split: sum.splits option.splits)
  next
    case False
    then have "plan_interval reboot_time i = Inr None \<or> missed now reboot_time i"
      using Cons.prems by simp
    then have "announce now reboot_time (i # rest) = announce now reboot_time rest"
      by (auto simp: missed_def split: sum.splits option.splits)
    then show ?thesis using False rest by simp
  qed
qed

lemma schedule_announcements_filter:
  assumes "\<And>i. i \<in> set intervals \<Longrightarrow> \<not> P i \<Longrightarrow>
             plan_interval reboot_time i = Inr None \<or> missed now reboot_time i"
  shows "schedule_announcements now (filter P intervals) reboot_time
         = schedule_announcements now intervals reboot_time"
proof -
  let ?key = "\<lambda>i. - get_seconds_before i"
  have "announce now reboot_time (filter P (sort_key ?key intervals))
        = announce now reboot_time (sort_key ?key intervals)"
    using assms by (intro announce_filter) simp_all
  then show ?thesis
    by (simp add: schedule_announcements_def filter_sort)
qed

lemma announce_timers_future:
  "tm \<in> set (timers (announce now reboot_time xs)) \<Longrightarrow> 0 < wait tm"
proof (induction xs)
  case Nil
  then show ?case by simp
next
  case (Cons i rest)
  then show ?case
    by (auto simp: Let_def split: sum.splits option.splits if_splits)
qed

lemma plan_interval_time:
  assumes "plan_interval reboot_time i = Inr (Some (t, msg))"
  shows "t = reboot_time - get_seconds_before i * us_per_second"
  using assms
  by (auto simp: plan_interval_def get_seconds_before_def timedelta_seconds_def
      timedelta_minutes_def Let_def split: option.splits sum.splits if_splits)


lemma missed_iff:
  "missed now reboot_time i \<longleftrightarrow>
     (\<exists>msg. plan_interval reboot_time i
              = Inr (Some (reboot_time - get_seconds_before i * us_per_second, msg)))
     \<and> reboot_time - get_seconds_before i * us_per_second \<le> now"
proof
  assume "missed now reboot_time i"
  then obtain t msg where p: "plan_interval reboot_time i = Inr (Some (t, msg))" and "t \<le> now"
    by (auto simp: missed_def split: sum.splits option.splits)
  moreover from p have "t = reboot_time - get_seconds_before i * us_per_second"
    by (rule plan_interval_time)
  ultimately show "(\<exists>msg. plan_interval reboot_time i
              = Inr (Some (reboot_time - get_seconds_before i * us_per_second, msg)))
     \<and> reboot_time - get_seconds_before i * us_per_second \<le> now"
    by auto
next
  assume "(\<exists>msg. plan_interval reboot_time i
              = Inr (Some (reboot_time - get_seconds_before i * us_per_second, msg)))
     \<and> reboot_time - get_seconds_before i * us_per_second \<le> now"
  then show "missed now reboot_time i"
    by (auto simp: missed_def)
qed

subsubsection \<open>C4\<close>

text \<open>
  Claim C4. An announcement rule whose computed fire time (the reboot time minus the
  rule's offset) is not after \<open>now\<close> is left out of the plan. Every timer the planner
  starts has a positive delay, so none fires at \<open>now\<close> or late; planning gives the same
  timers, the same log and the same outcome as planning without the missed rules; and a
  missed rule alone gives the empty plan, every time it is planned. A rule is \<open>missed\<close>
  when its message renders and its fire time is at most \<open>now\<close>.
\<close>

theorem missed_announcements_are_dropped:
  "(\<forall>tm \<in> set (timers (schedule_announcements now intervals reboot_time)). 0 < wait tm)
   \<and> schedule_announcements now (filter (\<lambda>i. \<not> missed now reboot_time i) intervals) reboot_time
       = schedule_announcements now intervals reboot_time
   \<and> (missed now reboot_time i \<longrightarrow>
        schedule_announcements now [i] reboot_time = \<lparr>timers = [], logged = [], raised = None\<rparr>)
   \<and> (missed now reboot_time i \<longleftrightarrow>
        (\<exists>msg. plan_interval reboot_time i
                 = Inr (Some (reboot_time - get_seconds_before i * us_per_second, msg)))
        \<and> reboot_time - get_seconds_before i * us_per_second \<le> now)"
proof (intro conjI impI ballI)
  fix tm
  assume "tm \<in> set (timers (schedule_announcements now intervals reboot_time))"
  then show "0 < wait tm"
    unfolding schedule_announcements_def by (rule announce_timers_future)
next
  show "schedule_announcements now (filter (\<lambda>i. \<not> missed now reboot_time i) intervals) reboot_time
        = schedule_announcements now intervals reboot_time"
    by (rule schedule_announcements_filter) simp
next
  assume "missed now reboot_time i"
  then show "schedule_announcements now [i] reboot_time
             = \<lparr>timers = [], logged = [], raised = None\<rparr>"
    by (auto simp: schedule_announcements_def missed_def split: sum.splits option.splits)
next
  show "missed now reboot_time i \<longleftrightarrow>
        (\<exists>msg. plan_interval reboot_time i
                 = Inr (Some (reboot_time - get_seconds_before i * us_per_second, msg)))
        \<and> reboot_time - get_seconds_before i * us_per_second \<le> now"
    by (rule missed_iff)
qed

theorem missed_announcements_are_dropped_witness:
  "schedule_announcements (datetime_at 5 3 55 0 0)
     [\<lparr>seconds_before = None, minutes_before = Some 10, message = ''Reboot in {minutes} minutes''\<rparr>,
      \<lparr>seconds_before = None, minutes_before = Some 1, message = ''Reboot soon''\<rparr>]
     (datetime_at 5 4 0 0 0)
   = schedule_announcements (datetime_at 5 3 55 0 0)
     [\<lparr>seconds_before = None, minutes_before = Some 1, message = ''Reboot soon''\<rparr>]
     (datetime_at 5 4 0 0 0)
   \<and> schedule_announcements (datetime_at 5 3 55 0 0)
     [\<lparr>seconds_before = None, minutes_before = Some 10, message = ''Reboot in {minutes} minutes''\<rparr>]
     (datetime_at 5 4 0 0 0)
   = \<lparr>timers = [], logged = [], raised = None\<rparr>"
proof -
  let ?now = "datetime_at 5 3 55 0 0" and ?T = "datetime_at 5 4 0 0 0"
  let ?r10 = "\<lparr>seconds_before = None, minutes_before = Some 10,
                message = ''Reboot in {minutes} minutes''\<rparr>"
  let ?r1 = "\<lparr>seconds_before = None, minutes_before = Some 1, message = ''Reboot soon''\<rparr>"
  have "py_format ''Reboot in {minutes} minutes'' ''minutes'' 10 = Inr ''Reboot in 10 minutes''"
    by (simp add: py_format_def str_int_def emit_def get_field_def is_digit_def field_special_def)
  then have "plan_interval ?T ?r10 = Inr (Some (?T - timedelta_minutes 10, ''Reboot in 10 minutes''))"
    by (simp add: plan_interval_def)
  then have m10: "missed ?now ?T ?r10"
    by (simp add: missed_def datetime_at_def timedelta_minutes_def us_per_day_def us_per_second_def)
  have "plan_interval ?T ?r1 = Inr (Some (?T - timedelta_minutes 1, ''Reboot soon''))"
    by (simp add: plan_interval_def)
  then have m1: "\<not> missed ?now ?T ?r1"
    by (simp add: missed_def datetime_at_def timedelta_minutes_def us_per_day_def us_per_second_def)
  have f: "filter (\<lambda>i. \<not> missed ?now ?T i) [?r10, ?r1] = [?r1]"
    using m10 m1 by simp
  note t = missed_announcements_are_dropped [of ?now "[?r10, ?r1]" ?T ?r10]
  from t have "schedule_announcements ?now (filter (\<lambda>i. \<not> missed ?now ?T i) [?r10, ?r1]) ?T
       = schedule_announcements ?now [?r10, ?r1] ?T"
    by (rule conjunct1 [OF conjunct2])
  moreover from t m10 have "schedule_announcements ?now [?r10] ?T
       = \<lparr>timers = [], logged = [], raised = None\<rparr>"
    by blast
  ultimately show ?thesis
    by (simp only: f)
qed

subsubsection \<open>C7\<close>




subsubsection \<open>C9\<close>

text \<open>
  Claim C9, as the code has it. An announcement rule with neither a seconds offset nor a
  minutes offset is skipped by the planner: it gives no timer and no log record, and the
  planning of the other rules goes on as if the rule were not there, with the same
  timers, the same log and the same outcome. The code does not log the skip.
\<close>

theorem invalid_interval_skipped:
  "(seconds_before i = None \<and> minutes_before i = None \<longrightarrow>
      plan_interval T i = Inr None
      \<and> schedule_announcements now [i] T = \<lparr>timers = [], logged = [], raised = None\<rparr>)
   \<and> schedule_announcements now
        (filter (\<lambda>i. seconds_before i \<noteq> None \<or> minutes_before i \<noteq> None) intervals) T
      = schedule_announcements now intervals T"
proof (intro conjI impI)
  assume a: "seconds_before i = None \<and> minutes_before i = None"
  then show p: "plan_interval T i = Inr None"
    by (simp add: plan_interval_def)
  then show "schedule_announcements now [i] T = \<lparr>timers = [], logged = [], raised = None\<rparr>"
    by (simp add: schedule_announcements_def)
next
  show "schedule_announcements now
        (filter (\<lambda>i. seconds_before i \<noteq> None \<or> minutes_before i \<noteq> None) intervals) T
      = schedule_announcements now intervals T"
    by (rule schedule_announcements_filter) (simp add: plan_interval_def)
qed

theorem invalid_interval_skipped_witness:
  "schedule_announcements (datetime_at 5 3 55 0 0)
     [\<lparr>seconds_before = None, minutes_before = None, message = ''Reboot''\<rparr>,
      \<lparr>seconds_before = None, minutes_before = Some 1, message = ''Reboot soon''\<rparr>]
     (datetime_at 5 4 0 0 0)
   = schedule_announcements (datetime_at 5 3 55 0 0)
     [\<lparr>seconds_before = None, minutes_before = Some 1, message = ''Reboot soon''\<rparr>]
     (datetime_at 5 4 0 0 0)
   \<and> plan_interval (datetime_at 5 4 0 0 0)
       \<lparr>seconds_before = None, minutes_before = None, message = ''Reboot''\<rparr> = Inr None"
  using invalid_interval_skipped
    [of "\<lparr>seconds_before = None, minutes_before = None, message = ''Reboot''\<rparr>"
        "datetime_at 5 4 0 0 0" "datetime_at 5 3 55 0 0"
        "[\<lparr>seconds_before = None, minutes_before = None, message = ''Reboot''\<rparr>,
          \<lparr>seconds_before = None, minutes_before = Some 1, message = ''Reboot soon''\<rparr>]"]
  by simp

text \<open>
  The claim as stated says the skip is logged. Planning the one rule without an offset
  logs nothing; planning it beside a one-minute rule logs the one-minute rule's record
  and nothing else.
\<close>

theorem invalid_interval_skip_not_logged:
  "logged (schedule_announcements (datetime_at 5 3 55 0 0)
     [\<lparr>seconds_before = None, minutes_before = None, message = ''Reboot''\<rparr>]
     (datetime_at 5 4 0 0 0)) = []
   \<and> logged (schedule_announcements (datetime_at 5 3 55 0 0)
     [\<lparr>seconds_before = None, minutes_before = None, message = ''Reboot''\<rparr>,
      \<lparr>seconds_before = None, minutes_before = Some 1, message = ''Reboot soon''\<rparr>]
     (datetime_at 5 4 0 0 0))
     = [(INFO, ''Scheduled announcement for {announcement_time}: {message}'',
         [Time (datetime_at 5 3 59 0 0), Str ''Reboot soon''])]"
  by (simp add: schedule_announcements_def plan_interval_def get_seconds_before_def
      datetime_at_def timedelta_minutes_def us_per_day_def us_per_second_def)

subsection \<open>Process controller\<close>

lemma pipe_write_fails: "q \<noteq> PipeOpen \<Longrightarrow> \<exists>e. pipe_write q = Inl e"
  by (cases q) (simp_all add: pipe_write_def)

subsubsection \<open>C5\<close>

text \<open>
  Claim C5. \<open>send_command\<close> returns failure whenever no child is attached (the handle
  is \<open>None\<close>, as it is after line 333 has cleared it), the child has no stdin pipe, or
  the pipe is closed or broken. It returns \<open>False\<close> instead of raising: the exception of
  the write is caught, and the failure is an \<open>ERROR\<close> record at the end of the log. The
  failed call changes nothing but the log. \<open>send_command\<close> succeeds exactly when a
  child with an open pipe is attached.
\<close>

theorem send_command_fails_softly:
  "(server_process w = None \<longrightarrow>
      send_command text w
      = (False, log_msg ERROR ''Server process not running or stdin not available'' [] w))
   \<and> (server_process w = Some p \<and> stdin p = None \<longrightarrow>
      send_command text w
      = (False, log_msg ERROR ''Server process not running or stdin not available'' [] w))
   \<and> (server_process w = Some p \<and> stdin p = Some q \<and> q \<noteq> PipeOpen \<longrightarrow>
      (\<exists>e. pipe_write q = Inl e \<and>
           send_command text w
           = (False, log_msg ERROR ''Failed to send command '{command}': {e}'' [Str text, Exc e]
                       (log_msg INFO ''Sending command: {command}'' [Str text] w))))
   \<and> (fst (send_command text w) \<longleftrightarrow>
        (\<exists>p. server_process w = Some p \<and> stdin p = Some PipeOpen))
   \<and> (\<not> fst (send_command text w) \<longrightarrow>
        (\<exists>records. snd (send_command text w) = w\<lparr>log := log w @ records\<rparr>
           \<and> records \<noteq> [] \<and> fst (last records) = ERROR))"
proof (intro conjI impI)
  assume "server_process w = None"
  then show "send_command text w
      = (False, log_msg ERROR ''Server process not running or stdin not available'' [] w)"
    by (simp add: send_command_def)
next
  assume "server_process w = Some p \<and> stdin p = None"
  then show "send_command text w
      = (False, log_msg ERROR ''Server process not running or stdin not available'' [] w)"
    by (simp add: send_command_def)
next
  assume a: "server_process w = Some p \<and> stdin p = Some q \<and> q \<noteq> PipeOpen"
  then obtain e where "pipe_write q = Inl e"
    using pipe_write_fails by blast
  then show "\<exists>e. pipe_write q = Inl e \<and>
           send_command text w
           = (False, log_msg ERROR ''Failed to send command '{command}': {e}'' [Str text, Exc e]
                       (log_msg INFO ''Sending command: {command}'' [Str text] w))"
    using a by (simp add: send_command_def)
next
  show "fst (send_command text w) \<longleftrightarrow>
        (\<exists>p. server_process w = Some p \<and> stdin p = Some PipeOpen)"
    by (auto simp: send_command_def Let_def pipe_write_def split: option.splits sum.splits pipe.splits)
next
  assume "\<not> fst (send_command text w)"
  then show "\<exists>records. snd (send_command text w) = w\<lparr>log := log w @ records\<rparr>
           \<and> records \<noteq> [] \<and> fst (last records) = ERROR"
  proof (cases "server_process w")
    case None
    then have "snd (send_command text w)
        = w\<lparr>log := log w @ [(ERROR, ''Server process not running or stdin not available'', [])]\<rparr>"
      by (simp add: send_command_def log_msg_def)
    then show ?thesis by force
  next
    case (Some p)
    show ?thesis
    proof (cases "stdin p")
      case None
      then have "snd (send_command text w)
        = w\<lparr>log := log w @ [(ERROR, ''Server process not running or stdin not available'', [])]\<rparr>"
        using Some by (simp add: send_command_def log_msg_def)
      then show ?thesis by force
    next
      case (Some q)
      with \<open>server_process w = Some p\<close> \<open>\<not> fst (send_command text w)\<close>
      obtain e where "pipe_write q = Inl e"
        by (auto simp: send_command_def Let_def split: sum.splits)
      then have "snd (send_command text w)
        = w\<lparr>log := log w @ [(INFO, ''Sending command: {command}'', [Str text]),
                              (ERROR, ''Failed to send command '{command}': {e}'',
                               [Str text, Exc e])]\<rparr>"
        using Some \<open>server_process w = Some p\<close> by (simp add: send_command_def log_msg_def)
      then show ?thesis by force
    qed
  qed
qed

theorem send_command_fails_softly_witness:
  "send_command ''exit'' (example_world stubborn_child)
     = (False, log_msg ERROR ''Server process not running or stdin not available'' []
                 (example_world stubborn_child))
   \<and> \<not> fst (send_command ''announcement''
              ((example_world stubborn_child)
                 \<lparr>server_process := Some ((new_popen stubborn_child)\<lparr>stdin := Some PipeBroken\<rparr>)\<rparr>))"
proof -
  have "server_process (example_world stubborn_child) = None"
    by (simp add: example_world_def)
  then have "send_command ''exit'' (example_world stubborn_child)
     = (False, log_msg ERROR ''Server process not running or stdin not available'' []
                 (example_world stubborn_child))"
    using send_command_fails_softly [of "example_world stubborn_child" "''exit''"] by blast
  moreover have "\<not> fst (send_command ''announcement''
              ((example_world stubborn_child)
                 \<lparr>server_process := Some ((new_popen stubborn_child)\<lparr>stdin := Some PipeBroken\<rparr>)\<rparr>))"
    using send_command_fails_softly
      [of "(example_world stubborn_child)
             \<lparr>server_process := Some ((new_popen stubborn_child)\<lparr>stdin := Some PipeBroken\<rparr>)\<rparr>"
          "''announcement''"]
    by simp
  ultimately show ?thesis by simp
qed

lemma log_msg_simps [simp]:
  "events (log_msg lv txt args w) = events w"
  "clock (log_msg lv txt args w) = clock w"
  "server_process (log_msg lv txt args w) = server_process w"
  "running (log_msg lv txt args w) = running w"
  "reboot_thread (log_msg lv txt args w) = reboot_thread w"
  "launches (log_msg lv txt args w) = launches w"
  "env (log_msg lv txt args w) = env w"
  "config (log_msg lv txt args w) = config w"
  by (simp_all add: log_msg_def)

lemma emit_event_simps [simp]:
  "events (emit_event e w) = events w @ [e]"
  "clock (emit_event e w) = clock w"
  "server_process (emit_event e w) = server_process w"
  "running (emit_event e w) = running w"
  "reboot_thread (emit_event e w) = reboot_thread w"
  "launches (emit_event e w) = launches w"
  "env (emit_event e w) = env w"
  "config (emit_event e w) = config w"
  by (simp_all add: emit_event_def)

lemma sleep_simps [simp]:
  "events (sleep d w) = events w @ [Sleep d]"
  "clock (sleep d w) = clock w + d"
  "server_process (sleep d w) = server_process w"
  "running (sleep d w) = running w"
  "reboot_thread (sleep d w) = reboot_thread w"
  "launches (sleep d w) = launches w"
  "env (sleep d w) = env w"
  "config (sleep d w) = config w"
  by (simp_all add: sleep_def)

lemma poll_server_simps [simp]:
  "events (poll_server w) = events w"
  "clock (poll_server w) = clock w"
  "server_process (poll_server w) = map_option poll (server_process w)"
  "running (poll_server w) = running w"
  "reboot_thread (poll_server w) = reboot_thread w"
  "launches (poll_server w) = launches w"
  "env (poll_server w) = env w"
  "config (poll_server w) = config w"
  by (simp_all add: poll_server_def)

lemma terminate_server_simps [simp]:
  "events (terminate_server w) = events w @ [Terminate]"
  "clock (terminate_server w) = clock w"
  "server_process (terminate_server w)
     = map_option (\<lambda>p. p\<lparr>terminated := True\<rparr>) (server_process w)"
  "running (terminate_server w) = running w"
  "reboot_thread (terminate_server w) = reboot_thread w"
  by (simp_all add: terminate_server_def)

lemma kill_server_simps [simp]:
  "events (kill_server w) = events w @ [Kill]"
  "clock (kill_server w) = clock w"
  "server_process (kill_server w)
     = map_option (\<lambda>p. p\<lparr>killed := True\<rparr>) (server_process w)"
  "running (kill_server w) = running w"
  by (simp_all add: kill_server_def)

lemma send_command_open:
  assumes "server_process w = Some p" and "stdin p = Some PipeOpen"
  shows "send_command text w
         = (True, emit_event (Write (text @ newline))
                    ((log_msg INFO ''Sending command: {command}'' [Str text] w)
                       \<lparr>server_process := Some (p\<lparr>received := received p @ [text @ newline]\<rparr>)\<rparr>))"
  using assms by (simp add: send_command_def pipe_write_def)

lemma wait_timeout:
  assumes "server_process w = Some p" and "returncode p = None" and "exit_status p = None"
  shows "wait_for_server_exit t w
         = (False, log_msg WARNING ''Server did not exit within timeout period'' []
                     (emit_event (Wait t) (w\<lparr>clock := clock w + timedelta_seconds t\<rparr>)))"
  using assms by (simp add: wait_for_server_exit_def popen_wait_def poll_def)

lemma scheduled_stop_of_stubborn:
  assumes "server_process w = Some p" and "stdin p = Some PipeOpen"
    and "returncode p = None" and "exits_at_start (behaviour p) = None"
    and "\<not> heeds_exit (behaviour p)" and "\<not> heeds_terminate (behaviour p)" and "\<not> killed p"
  shows "events (scheduled_stop w)
         = events w @ [Write (''exit'' @ newline), Wait 60, Terminate,
                       Sleep (timedelta_seconds 5), Kill]
         \<and> clock (scheduled_stop w) = clock w + timedelta_seconds 60 + timedelta_seconds 5
         \<and> (\<exists>p'. server_process (scheduled_stop w) = Some p' \<and> killed p')"
proof -
  let ?p1 = "p\<lparr>received := received p @ [''exit'' @ newline]\<rparr>"
  let ?w1 = "log_msg INFO ''Sending exit command to server'' [] w"
  let ?w2 = "emit_event (Write (''exit'' @ newline))
               ((log_msg INFO ''Sending command: {command}'' [Str ''exit''] ?w1)
                  \<lparr>server_process := Some ?p1\<rparr>)"
  let ?w3 = "log_msg WARNING ''Server did not exit within timeout period'' []
               (emit_event (Wait 60) (?w2\<lparr>clock := clock ?w2 + timedelta_seconds 60\<rparr>))"
  have alive1: "returncode ?p1 = None" "exit_status ?p1 = None" "poll ?p1 = ?p1"
    using assms by (simp_all add: poll_def exit_status_def)
  have sent: "snd (send_command ''exit'' ?w1) = ?w2"
    using assms(1,2) by (simp add: send_command_open)
  have p2: "server_process ?w2 = Some ?p1"
    by simp
  have waited: "snd (wait_for_server_exit 60 ?w2) = ?w3"
    using wait_timeout [OF p2 alive1(1,2)] by simp
  have p3: "server_process (poll_server ?w3) = Some ?p1"
    using alive1(3) by simp
  then have alive3: "server_alive (poll_server ?w3)"
    using alive1(1) by (simp add: server_alive_def)
  let ?w4 = "log_msg WARNING ''Server did not exit gracefully, terminating...'' [] (poll_server ?w3)"
  let ?w5 = "poll_server (sleep (timedelta_seconds 5) (terminate_server ?w4))"
  let ?p5 = "?p1\<lparr>terminated := True\<rparr>"
  have "poll ?p5 = ?p5"
    using assms by (simp add: poll_def exit_status_def)
  then have p5: "server_process ?w5 = Some ?p5"
    using alive1(3) by simp
  then have alive5: "server_alive ?w5"
    using assms(3) by (simp add: server_alive_def)
  have result: "scheduled_stop w = kill_server ?w5"
    unfolding scheduled_stop_def Let_def sent waited
    using alive3 alive5 by (simp only: if_True)
  have "events ?w5 = events w @ [Write (''exit'' @ newline), Wait 60, Terminate,
                               Sleep (timedelta_seconds 5)]"
    by simp
  moreover have "clock ?w5 = clock w + timedelta_seconds 60 + timedelta_seconds 5"
    by simp
  ultimately show ?thesis
    unfolding result using p5 by simp
qed

subsubsection \<open>C1\<close>

text \<open>
  Claim C1. Given an attached, running child that never exits voluntarily (it ignores
  the exit command and the terminate request), the scheduled stop of \<open>reboot_cycle\<close>
  does exactly this to the child, in this order: it writes the one line \<^verbatim>\<open>exit\<close>, waits
  60 seconds for the exit, sends one terminate request, sleeps 5 seconds, and kills. No
  step is left out and none comes twice; 65 seconds pass, and the child ends killed.
\<close>

theorem scheduled_stop_escalates:
  assumes "server_process w = Some p" and "stdin p = Some PipeOpen"
    and "returncode p = None" and "exits_at_start (behaviour p) = None"
    and "\<not> heeds_exit (behaviour p)" and "\<not> heeds_terminate (behaviour p)" and "\<not> killed p"
  shows "events (scheduled_stop w)
         = events w @ [Write (''exit'' @ newline), Wait 60, Terminate,
                       Sleep (timedelta_seconds 5), Kill]
         \<and> clock (scheduled_stop w) = clock w + timedelta_seconds 60 + timedelta_seconds 5
         \<and> (\<exists>p'. server_process (scheduled_stop w) = Some p' \<and> killed p')"
  using assms by (rule scheduled_stop_of_stubborn)

theorem scheduled_stop_escalates_witness:
  "events (scheduled_stop (attached_world stubborn_child))
     = [Write (''exit'' @ newline), Wait 60, Terminate, Sleep (timedelta_seconds 5), Kill]
   \<and> clock (scheduled_stop (attached_world stubborn_child))
     = datetime_at 5 3 0 0 0 + timedelta_seconds 60 + timedelta_seconds 5"
proof -
  have "server_process (attached_world stubborn_child) = Some (new_popen stubborn_child)"
    and "events (attached_world stubborn_child) = []"
    and "clock (attached_world stubborn_child) = datetime_at 5 3 0 0 0"
    by (simp_all add: attached_world_def example_world_def)
  moreover have "stdin (new_popen stubborn_child) = Some PipeOpen"
    and "returncode (new_popen stubborn_child) = None"
    and "exits_at_start (behaviour (new_popen stubborn_child)) = None"
    and "\<not> heeds_exit (behaviour (new_popen stubborn_child))"
    and "\<not> heeds_terminate (behaviour (new_popen stubborn_child))"
    and "\<not> killed (new_popen stubborn_child)"
    by (simp_all add: new_popen_def stubborn_child_def)
  ultimately show ?thesis
    using scheduled_stop_escalates
      [of "attached_world stubborn_child" "new_popen stubborn_child"]
    by simp
qed

lemma stop_of_stubborn:
  assumes "server_process w = Some p" and "stdin p = Some PipeOpen"
    and "returncode p = None" and "exits_at_start (behaviour p) = None"
    and "\<not> heeds_exit (behaviour p)" and "\<not> heeds_terminate (behaviour p)" and "\<not> killed p"
  shows "events (stop w)
         = events w @ [Write (''exit'' @ newline), Wait 30, Terminate]
             @ (if reboot_thread w then [Join 10] else [])"
    and "server_alive (poll_server (stop w))"
    and "\<not> running (stop w)"
proof -
  let ?p1 = "p\<lparr>received := received p @ [''exit'' @ newline]\<rparr>"
  let ?w0 = "poll_server (w\<lparr>running := False\<rparr>)"
  let ?w1 = "log_msg INFO ''Stopping server...'' [] ?w0"
  let ?w2 = "emit_event (Write (''exit'' @ newline))
               ((log_msg INFO ''Sending command: {command}'' [Str ''exit''] ?w1)
                  \<lparr>server_process := Some ?p1\<rparr>)"
  let ?w3 = "log_msg WARNING ''Server did not exit within timeout period'' []
               (emit_event (Wait 30) (?w2\<lparr>clock := clock ?w2 + timedelta_seconds 30\<rparr>))"
  have p: "poll p = p"
    using assms by (simp add: poll_def exit_status_def)
  then have p0: "server_process ?w0 = Some p"
    using assms(1) by simp
  have alive0: "server_alive ?w0"
    unfolding server_alive_def p0 using assms(3) by simp
  have alive1: "returncode ?p1 = None" "exit_status ?p1 = None" "poll ?p1 = ?p1"
    using assms by (simp_all add: poll_def exit_status_def)
  have "server_process ?w1 = Some p"
    unfolding log_msg_simps by (rule p0)
  then have sent: "snd (send_command ''exit'' ?w1) = ?w2"
    using assms(2) by (simp add: send_command_open)
  have p2: "server_process ?w2 = Some ?p1"
    by simp
  have waited: "snd (wait_for_server_exit 30 ?w2) = ?w3"
    using wait_timeout [OF p2 alive1(1,2)] by simp
  have p3: "server_process (poll_server ?w3) = Some ?p1"
    using alive1(3) by simp
  then have alive3: "server_alive (poll_server ?w3)"
    using alive1(1) by (simp add: server_alive_def)
  let ?w5 = "terminate_server (poll_server ?w3)"
  let ?w6 = "if reboot_thread ?w5 then emit_event (Join 10) ?w5 else ?w5"
  have result: "stop w = log_msg INFO ''Auto reboot tool stopped'' [] ?w6"
    unfolding stop_def Let_def sent waited
    using alive0 alive3 by (simp only: if_True)
  have ev: "events ?w5 = events w @ [Write (''exit'' @ newline), Wait 30, Terminate]"
    by simp
  have th: "reboot_thread ?w5 = reboot_thread w"
    by simp
  show "events (stop w)
         = events w @ [Write (''exit'' @ newline), Wait 30, Terminate]
             @ (if reboot_thread w then [Join 10] else [])"
    unfolding result using ev th by simp
  let ?p5 = "?p1\<lparr>terminated := True\<rparr>"
  have "poll ?p5 = ?p5" and "returncode ?p5 = None"
    using assms by (simp_all add: poll_def exit_status_def)
  moreover have "server_process ?w5 = Some ?p5"
    using p3 by simp
  then have "server_process (stop w) = Some ?p5"
    unfolding result by simp
  ultimately show "server_alive (poll_server (stop w))"
    by (simp add: server_alive_def)
  show "\<not> running (stop w)"
    unfolding result by simp
qed

subsubsection \<open>C6\<close>

text \<open>
  Claim C6 says that an external stop request stops the child with the three tiers of
  the scheduled stop: exit command, terminate, kill. \<open>stop\<close> has two: for the child that
  never exits voluntarily it writes \<^verbatim>\<open>exit\<close>, waits 30 seconds, sends terminate and
  joins the control thread with a timeout of 10 seconds. It never kills, and the child
  is still alive when \<open>stop\<close> returns. The scheduled stop kills the same child.
\<close>

theorem stop_never_kills:
  "events (stop (attached_world stubborn_child))
     = [Write (''exit'' @ newline), Wait 30, Terminate, Join 10]
   \<and> server_alive (poll_server (stop (attached_world stubborn_child)))
   \<and> \<not> running (stop (attached_world stubborn_child))
   \<and> events (scheduled_stop (attached_world stubborn_child))
     = [Write (''exit'' @ newline), Wait 60, Terminate, Sleep (timedelta_seconds 5), Kill]"
proof -
  have w: "server_process (attached_world stubborn_child) = Some (new_popen stubborn_child)"
    and e: "events (attached_world stubborn_child) = []"
    and t: "reboot_thread (attached_world stubborn_child)"
    by (simp_all add: attached_world_def example_world_def)
  have p: "stdin (new_popen stubborn_child) = Some PipeOpen"
    "returncode (new_popen stubborn_child) = None"
    "exits_at_start (behaviour (new_popen stubborn_child)) = None"
    "\<not> heeds_exit (behaviour (new_popen stubborn_child))"
    "\<not> heeds_terminate (behaviour (new_popen stubborn_child))"
    "\<not> killed (new_popen stubborn_child)"
    by (simp_all add: new_popen_def stubborn_child_def)
  show ?thesis
    using stop_of_stubborn [OF w p] scheduled_stop_of_stubborn [OF w p] e t
    by simp
qed

subsection \<open>Supervisor loop\<close>

lemma start_server_frame:
  "running (snd (start_server w)) = running w"
  "env (snd (start_server w)) = env w"
  "config (snd (start_server w)) = config w"
  by (simp_all add: start_server_def Let_def split: sum.splits option.splits)

lemma start_server_crash:
  assumes "path_exists (env w) \<or> name_exists (env w) \<or> beside_config_exists (env w)"
    and "spawn (env w) (launches w) = Inr c" and "exits_at_start c = Some code"
  shows "fst (start_server w) = False"
    and "events (snd (start_server w))
         = events w @ [popen_event w] @ (if child_pipe c = PipeOpen then [Write newline] else [])
             @ [Sleep (timedelta_seconds 3)]"
    and "launches (snd (start_server w)) = Suc (launches w)"
    and "clock (snd (start_server w)) = clock w + timedelta_seconds 3"
    and "\<not> server_alive (poll_server (snd (start_server w)))"
proof -
  let ?p = "new_popen c"
  have dead: "poll ?p = ?p\<lparr>returncode := Some code\<rparr>"
    "poll (?p\<lparr>received := [newline]\<rparr>) = ?p\<lparr>received := [newline], returncode := Some code\<rparr>"
    using assms(3) by (simp_all add: poll_def exit_status_def new_popen_def)
  have path: "(\<not> path_exists (env w) \<and> \<not> name_exists (env w) \<and> \<not> beside_config_exists (env w))
              = False"
    using assms(1) by blast
  have "fst (start_server w) = False
      \<and> events (snd (start_server w))
         = events w @ [popen_event w] @ (if child_pipe c = PipeOpen then [Write newline] else [])
             @ [Sleep (timedelta_seconds 3)]
      \<and> launches (snd (start_server w)) = Suc (launches w)
      \<and> clock (snd (start_server w)) = clock w + timedelta_seconds 3
      \<and> \<not> server_alive (poll_server (snd (start_server w)))"
    unfolding start_server_def path if_False
    using assms(2) dead
    by (cases "child_pipe c"; cases "diagnostics (env w)")
       (simp_all add: Let_def pipe_write_def server_alive_def poll_def)
  then show "fst (start_server w) = False"
    and "events (snd (start_server w))
         = events w @ [popen_event w] @ (if child_pipe c = PipeOpen then [Write newline] else [])
             @ [Sleep (timedelta_seconds 3)]"
    and "launches (snd (start_server w)) = Suc (launches w)"
    and "clock (snd (start_server w)) = clock w + timedelta_seconds 3"
    and "\<not> server_alive (poll_server (snd (start_server w)))"
    by blast+
qed

lemma reboot_cycle_body_failed_start:
  assumes "\<not> server_alive (poll_server w)" and "fst (start_server (poll_server w)) = False"
  shows "reboot_cycle_body w
         = sleep (timedelta_seconds 60)
             (log_msg ERROR ''Failed to start server, retrying in 60 seconds...'' []
                (snd (start_server (poll_server w))))"
  using assms
  by (cases "start_server (poll_server w)") (simp add: reboot_cycle_body_def Let_def)

lemma popen_event_poll_server: "popen_event (poll_server w) = popen_event w"
  by (simp add: popen_event_def)

lemma server_alive_sleep_log:
  "server_alive (poll_server (sleep d (log_msg lv txt args w))) = server_alive (poll_server w)"
  by (simp add: server_alive_def)

lemma crash_pass:
  assumes "\<not> server_alive (poll_server w)"
    and "path_exists (env w) \<or> name_exists (env w) \<or> beside_config_exists (env w)"
    and "spawn (env w) (launches w) = Inr c" and "exits_at_start c = Some code"
  shows "fst (start_server (poll_server w)) = False"
    and "events (reboot_cycle_body w)
         = events w @ [popen_event w] @ (if child_pipe c = PipeOpen then [Write newline] else [])
             @ [Sleep (timedelta_seconds 3), Sleep (timedelta_seconds 60)]"
    and "running (reboot_cycle_body w) = running w"
    and "\<not> server_alive (poll_server (reboot_cycle_body w))"
    and "launches (reboot_cycle_body w) = Suc (launches w)"
    and "clock (reboot_cycle_body w) = clock w + timedelta_seconds 3 + timedelta_seconds 60"
    and "env (reboot_cycle_body w) = env w"
proof -
  let ?w = "poll_server w"
  have a: "path_exists (env ?w) \<or> name_exists (env ?w) \<or> beside_config_exists (env ?w)"
    and b: "spawn (env ?w) (launches ?w) = Inr c"
    using assms(2,3) by simp_all
  note crash = start_server_crash [OF a b assms(4)]
  show failed: "fst (start_server ?w) = False"
    by (rule crash(1))
  note body = reboot_cycle_body_failed_start [OF assms(1) failed]
  show "events (reboot_cycle_body w)
         = events w @ [popen_event w] @ (if child_pipe c = PipeOpen then [Write newline] else [])
             @ [Sleep (timedelta_seconds 3), Sleep (timedelta_seconds 60)]"
    unfolding body using crash(2) by (simp add: popen_event_poll_server)
  show "running (reboot_cycle_body w) = running w"
    unfolding body by (simp add: start_server_frame)
  show "\<not> server_alive (poll_server (reboot_cycle_body w))"
    unfolding body server_alive_sleep_log by (rule crash(5))
  show "launches (reboot_cycle_body w) = Suc (launches w)"
    unfolding body using crash(3) by simp
  show "clock (reboot_cycle_body w) = clock w + timedelta_seconds 3 + timedelta_seconds 60"
    unfolding body using crash(4) by simp
  show "env (reboot_cycle_body w) = env w"
    unfolding body by (simp add: start_server_frame)
qed

lemma crash_loop:
  assumes "running w" and "\<not> server_alive (poll_server w)"
    and "path_exists (env w) \<or> name_exists (env w) \<or> beside_config_exists (env w)"
    and "\<forall>k. \<exists>c code. spawn (env w) k = Inr c \<and> exits_at_start c = Some code"
  shows "running (reboot_cycle_loop n w)
         \<and> launches (reboot_cycle_loop n w) = launches w + n
         \<and> clock (reboot_cycle_loop n w)
             = clock w + int n * (timedelta_seconds 3 + timedelta_seconds 60)"
  using assms
proof (induction n arbitrary: w)
  case 0
  then show ?case by simp
next
  case (Suc n)
  from Suc.prems(4) obtain c code
    where c: "spawn (env w) (launches w) = Inr c" "exits_at_start c = Some code"
    by blast
  note pass = crash_pass [OF Suc.prems(2,3) c]
  let ?w = "reboot_cycle_body w"
  have "running ?w" and "\<not> server_alive (poll_server ?w)"
    and "path_exists (env ?w) \<or> name_exists (env ?w) \<or> beside_config_exists (env ?w)"
    and "\<forall>k. \<exists>c code. spawn (env ?w) k = Inr c \<and> exits_at_start c = Some code"
    using pass(3,4,7) Suc.prems by simp_all
  from Suc.IH [OF this] show ?case
    using Suc.prems(1) pass(5,6) by (simp add: algebra_simps)
qed

subsubsection \<open>C8\<close>

text \<open>
  Claim C8. When the child exits within the start grace period, \<open>start_server\<close> sleeps
  its 3 seconds, finds the child gone and returns failure. The pass of the supervisor
  loop that called it then sleeps 60 seconds and ends; the tool is still running and has
  no live child, so the next pass calls \<open>start_server\<close> again. When every child exits
  like this, the loop is still running after any number \<open>n\<close> of passes, has launched
  \<open>n\<close> children, and has slept 63 seconds per pass: the failure never ends the supervisor.
\<close>

theorem failed_start_backs_off:
  "(\<not> server_alive (poll_server w)
      \<and> (path_exists (env w) \<or> name_exists (env w) \<or> beside_config_exists (env w))
      \<and> spawn (env w) (launches w) = Inr c \<and> exits_at_start c = Some code \<longrightarrow>
        fst (start_server (poll_server w)) = False
      \<and> events (reboot_cycle_body w)
         = events w @ [popen_event w] @ (if child_pipe c = PipeOpen then [Write newline] else [])
             @ [Sleep (timedelta_seconds 3), Sleep (timedelta_seconds 60)]
      \<and> running (reboot_cycle_body w) = running w
      \<and> \<not> server_alive (poll_server (reboot_cycle_body w))
      \<and> launches (reboot_cycle_body w) = Suc (launches w))
   \<and> (running w \<and> \<not> server_alive (poll_server w)
      \<and> (path_exists (env w) \<or> name_exists (env w) \<or> beside_config_exists (env w))
      \<and> (\<forall>k. \<exists>c code. spawn (env w) k = Inr c \<and> exits_at_start c = Some code) \<longrightarrow>
        running (reboot_cycle_loop n w)
      \<and> launches (reboot_cycle_loop n w) = launches w + n
      \<and> clock (reboot_cycle_loop n w)
         = clock w + int n * (timedelta_seconds 3 + timedelta_seconds 60))"
proof (intro conjI impI)
  assume a: "\<not> server_alive (poll_server w)
      \<and> (path_exists (env w) \<or> name_exists (env w) \<or> beside_config_exists (env w))
      \<and> spawn (env w) (launches w) = Inr c \<and> exits_at_start c = Some code"
  then have 1: "\<not> server_alive (poll_server w)"
    and 2: "path_exists (env w) \<or> name_exists (env w) \<or> beside_config_exists (env w)"
    and 3: "spawn (env w) (launches w) = Inr c" and 4: "exits_at_start c = Some code"
    by blast+
  note pass = crash_pass [OF 1 2 3 4]
  show "fst (start_server (poll_server w)) = False" by (rule pass(1))
  show "events (reboot_cycle_body w)
         = events w @ [popen_event w] @ (if child_pipe c = PipeOpen then [Write newline] else [])
             @ [Sleep (timedelta_seconds 3), Sleep (timedelta_seconds 60)]" by (rule pass(2))
  show "running (reboot_cycle_body w) = running w" by (rule pass(3))
  show "\<not> server_alive (poll_server (reboot_cycle_body w))" by (rule pass(4))
  show "launches (reboot_cycle_body w) = Suc (launches w)" by (rule pass(5))
next
  assume a: "running w \<and> \<not> server_alive (poll_server w)
      \<and> (path_exists (env w) \<or> name_exists (env w) \<or> beside_config_exists (env w))
      \<and> (\<forall>k. \<exists>c code. spawn (env w) k = Inr c \<and> exits_at_start c = Some code)"
  then have 1: "running w" and 2: "\<not> server_alive (poll_server w)"
    and 3: "path_exists (env w) \<or> name_exists (env w) \<or> beside_config_exists (env w)"
    and 4: "\<forall>k. \<exists>c code. spawn (env w) k = Inr c \<and> exits_at_start c = Some code"
    by blast+
  note loop = crash_loop [OF 1 2 3 4, of n]
  from loop show "running (reboot_cycle_loop n w)" by blast
  from loop show "launches (reboot_cycle_loop n w) = launches w + n" by blast
  from loop show "clock (reboot_cycle_loop n w)
         = clock w + int n * (timedelta_seconds 3 + timedelta_seconds 60)" by blast
qed

theorem failed_start_backs_off_witness:
  "fst (start_server (poll_server (example_world crashing_child))) = False
   \<and> events (reboot_cycle_body (example_world crashing_child))
     = [Popen_argv [''/srv/server/Intersect Server.exe''] ''/srv/server'', Write newline,
        Sleep (timedelta_seconds 3), Sleep (timedelta_seconds 60)]
   \<and> running (reboot_cycle_loop 10 (example_world crashing_child))
   \<and> launches (reboot_cycle_loop 10 (example_world crashing_child)) = 10"
proof -
  let ?w = "example_world crashing_child"
  have 1: "running ?w" and 2: "\<not> server_alive (poll_server ?w)"
    and 3: "path_exists (env ?w) \<or> name_exists (env ?w) \<or> beside_config_exists (env ?w)"
    and 4: "spawn (env ?w) (launches ?w) = Inr crashing_child"
    and 5: "exits_at_start crashing_child = Some 1"
    and 6: "\<forall>k. \<exists>c code. spawn (env ?w) k = Inr c \<and> exits_at_start c = Some code"
    and 7: "events ?w = []" "launches ?w = 0" "child_pipe crashing_child = PipeOpen"
    and 8: "popen_event ?w = Popen_argv [''/srv/server/Intersect Server.exe''] ''/srv/server''"
    by (simp_all add: example_world_def example_env_def example_config_def crashing_child_def
        server_alive_def popen_event_def)
  note t1 = failed_start_backs_off [of ?w crashing_child 1 10]
  from t1 2 3 4 5 have "fst (start_server (poll_server ?w)) = False"
    by blast
  moreover from t1 2 3 4 5 have "events (reboot_cycle_body ?w)
         = events ?w @ [popen_event ?w]
             @ (if child_pipe crashing_child = PipeOpen then [Write newline] else [])
             @ [Sleep (timedelta_seconds 3), Sleep (timedelta_seconds 60)]"
    by blast
  moreover from t1 1 2 3 6 have "running (reboot_cycle_loop 10 ?w)"
    by blast
  moreover from t1 1 2 3 6 have "launches (reboot_cycle_loop 10 ?w) = launches ?w + 10"
    by blast
  ultimately show ?thesis
    using 7 8 by simp
qed

end
